theory Spec2Isabelle
  imports Complex_Main "HOL-Library.AList"
begin

section \<open>The collaborators: clock and remote service\<close>

text \<open>
  The Python sources read the wall clock (\<^verbatim>\<open>time.time()\<close>), call the remote
  generative service and sleep between retries. These effects are made explicit: an
  environment \<open>env\<close> fixes what the collaborators answer (the value of the k-th clock
  reading, the outcome of the k-th remote invocation), and a \<open>trace\<close> records how far the
  program has consumed them. Python floats (timestamps, durations, delays, rates) are
  idealised as rationals: rounding of floating-point arithmetic is not modelled.
\<close>

text \<open>An exception raised by the remote collaborator: its optional attributes
  \<^verbatim>\<open>code\<close> and \<^verbatim>\<open>status_code\<close> and the text \<^verbatim>\<open>str(e)\<close>.\<close>

record py_exception =
  exc_code :: "int option"
  exc_status_code :: "int option"
  exc_str :: string

text \<open>A response object of the collaborator, of which the client reads \<^verbatim>\<open>.text\<close>.\<close>

record remote_response =
  response_text :: string

datatype outcome = Returns remote_response | Raises py_exception

text \<open>A stream of the collaborator: the fragments it yields, then either a normal end
  (\<open>None\<close>) or an exception. An exception raised by the call that opens the stream is a
  stream with no fragment that ends in that exception.\<close>

record stream_outcome =
  chunks :: "string list"
  stream_raises :: "py_exception option"

record env =
  clock :: "nat \<Rightarrow> rat"
  remote :: "nat \<Rightarrow> string \<Rightarrow> string \<Rightarrow> outcome"
  remote_stream :: "nat \<Rightarrow> string \<Rightarrow> string \<Rightarrow> stream_outcome"

record trace =
  ticks :: nat
  calls :: "string list"
  sleeps :: "rat list"
  stream_calls :: "string list"

definition time_time :: "env \<Rightarrow> trace \<Rightarrow> rat \<times> trace" where
  "time_time ev w = (clock ev (ticks w), w\<lparr>ticks := Suc (ticks w)\<rparr>)"

definition generate_content :: "env \<Rightarrow> trace \<Rightarrow> string \<Rightarrow> string \<Rightarrow> outcome \<times> trace" where
  "generate_content ev w model prompt =
     (remote ev (length (calls w)) model prompt, w\<lparr>calls := calls w @ [model]\<rparr>)"

definition generate_content_stream ::
  "env \<Rightarrow> trace \<Rightarrow> string \<Rightarrow> string \<Rightarrow> stream_outcome \<times> trace" where
  "generate_content_stream ev w model prompt =
     (remote_stream ev (length (stream_calls w)) model prompt,
      w\<lparr>stream_calls := stream_calls w @ [model]\<rparr>)"

definition asyncio_sleep :: "trace \<Rightarrow> rat \<Rightarrow> trace" where
  "asyncio_sleep w delay = w\<lparr>sleeps := sleeps w @ [delay]\<rparr>"

section \<open>Python primitives\<close>

text \<open>\<^verbatim>\<open>a or b\<close> on optional integers: \<open>None\<close> and \<open>0\<close> are falsy.\<close>

definition py_or :: "int option \<Rightarrow> int option \<Rightarrow> int option" where
  "py_or a b = (case a of None \<Rightarrow> b | Some n \<Rightarrow> if n \<noteq> 0 then Some n else b)"

text \<open>\<^verbatim>\<open>xs[i]\<close>: a negative index counts from the end; \<open>None\<close> is IndexError.\<close>

definition py_index :: "'a list \<Rightarrow> int \<Rightarrow> 'a option" where
  "py_index xs i =
     (if 0 \<le> i \<and> i < int (length xs) then Some (xs ! nat i)
      else if i < 0 \<and> - int (length xs) \<le> i then Some (xs ! nat (int (length xs) + i))
      else None)"

text \<open>\<^verbatim>\<open>int(x)\<close> on a float truncates towards zero.\<close>

definition py_int :: "rat \<Rightarrow> int" where
  "py_int x = (if 0 \<le> x then \<lfloor>x\<rfloor> else \<lceil>x\<rceil>)"

text \<open>\<^verbatim>\<open>str.lower()\<close>, on ASCII letters.\<close>

definition lower_char :: "char \<Rightarrow> char" where
  "lower_char c =
     (let n = (of_char c :: nat) in if 65 \<le> n \<and> n \<le> 90 then char_of (n + 32) else c)"

definition lower :: "string \<Rightarrow> string" where
  "lower s = map lower_char s"

text \<open>\<^verbatim>\<open>str.upper()\<close>, on ASCII letters.\<close>

definition upper_char :: "char \<Rightarrow> char" where
  "upper_char c =
     (let n = (of_char c :: nat) in if 97 \<le> n \<and> n \<le> 122 then char_of (n - 32) else c)"

definition upper :: "string \<Rightarrow> string" where
  "upper s = map upper_char s"

text \<open>\<^verbatim>\<open>repr\<close> of a string that holds no quote, backslash or control character.\<close>

definition py_repr :: "string \<Rightarrow> string" where
  "py_repr s = CHR 0x27 # s @ [CHR 0x27]"

text \<open>\<^verbatim>\<open>needle in haystack\<close> on strings.\<close>

fun starts_with :: "string \<Rightarrow> string \<Rightarrow> bool" where
  "starts_with [] s = True"
| "starts_with (p # ps) [] = False"
| "starts_with (p # ps) (c # cs) = (p = c \<and> starts_with ps cs)"

fun str_contains :: "string \<Rightarrow> string \<Rightarrow> bool" where
  "str_contains needle [] = (needle = [])"
| "str_contains needle (c # cs) = (starts_with needle (c # cs) \<or> str_contains needle cs)"

section \<open>types.py\<close>

record GemBackOptions =
  api_key :: "string option"
  options_api_keys :: "string list option"
  fallback_order :: "string list"
  max_retries :: int
  retry_delay :: rat
  timeout :: rat
  debug :: bool
  log_level :: string
  api_key_rotation_strategy :: string
  enable_monitoring :: bool

text \<open>\<^verbatim>\<open>GemBackOptions()\<close>: the defaults of the dataclass.\<close>

definition GemBackOptions_init :: GemBackOptions where
  "GemBackOptions_init =
     \<lparr>api_key = None, options_api_keys = None,
      fallback_order = [''gemini-2.5-flash'', ''gemini-2.5-flash-lite''],
      max_retries = 2, retry_delay = 1, timeout = 30, debug = False, log_level = ''INFO'',
      api_key_rotation_strategy = ''round-robin'', enable_monitoring = False\<rparr>"

record GeminiResponse =
  g_text :: string
  g_model :: string
  raw_response :: remote_response

record AttemptRecord =
  ar_model :: string
  ar_error :: string
  timestamp :: rat
  ar_status_code :: "int option"

text \<open>The exceptions this code raises or lets through: the built-in ones, and
  \<^verbatim>\<open>GeminiBackError(message, code, attempts, status_code, model)\<close>.\<close>

datatype error =
    ValueError string
  | TypeError string
  | IndexError
  | KeyError
  | GeminiBackError string string "AttemptRecord list" "int option" "string option"

section \<open>rotators.py\<close>

record KeyStats =
  key_index :: int
  total_requests :: int
  success_count :: int
  failure_count :: int
  last_used :: rat

text \<open>The \<^verbatim>\<open>stats\<close> dictionary keeps its insertion order, which decides ties of the
  least-used strategy: an association list.\<close>

record ApiKeyRotator =
  api_keys :: "string list"
  strategy :: string
  current_index :: int
  stats :: "(int \<times> KeyStats) list"

definition KeyStats_init :: "int \<Rightarrow> KeyStats" where
  "KeyStats_init i =
     \<lparr>key_index = i, total_requests = 0, success_count = 0, failure_count = 0, last_used = 0\<rparr>"

definition ApiKeyRotator_init :: "string list \<Rightarrow> string \<Rightarrow> ApiKeyRotator" where
  "ApiKeyRotator_init keys strat =
     \<lparr>api_keys = keys, strategy = strat, current_index = 0,
      stats = map (\<lambda>i. (int i, KeyStats_init (int i))) [0..<length keys]\<rparr>"

text \<open>\<^verbatim>\<open>min(items, key=...)\<close> keeps the first of the minimal items.\<close>

fun min_by_total :: "int \<times> KeyStats \<Rightarrow> (int \<times> KeyStats) list \<Rightarrow> int \<times> KeyStats" where
  "min_by_total best [] = best"
| "min_by_total best (x # xs) =
     min_by_total (if total_requests (snd x) < total_requests (snd best) then x else best) xs"

record key_info =
  key :: "string option"
  index :: "int option"

text \<open>The strategy branch of \<^verbatim>\<open>get_next_key\<close>: the chosen index, and the rotator
  with its cursor advanced under round-robin. \<^verbatim>\<open>min\<close> of no item is a ValueError; a
  strategy of another name leaves \<^verbatim>\<open>index = 0\<close>.\<close>

definition choose_index :: "ApiKeyRotator \<Rightarrow> (error + int) \<times> ApiKeyRotator" where
  "choose_index r =
     (if strategy r = ''round-robin''
      then (Inr (current_index r),
            r\<lparr>current_index := (current_index r + 1) mod int (length (api_keys r))\<rparr>)
      else if strategy r = ''least-used''
      then (case stats r of
              [] \<Rightarrow> (Inl (ValueError ''min() arg is an empty sequence''), r)
            | x # xs \<Rightarrow> (Inr (fst (min_by_total x xs)), r))
      else (Inr 0, r))"

text \<open>\<^verbatim>\<open>get_next_key\<close>. The right-hand side \<^verbatim>\<open>time.time()\<close> of the assignment to
  \<^verbatim>\<open>last_used\<close> is evaluated before \<^verbatim>\<open>self.stats[index]\<close> is looked up.\<close>

definition get_next_key ::
  "env \<Rightarrow> ApiKeyRotator \<Rightarrow> trace \<Rightarrow> (error + key_info) \<times> ApiKeyRotator \<times> trace" where
  "get_next_key ev r w =
     (if api_keys r = [] then (Inl (ValueError ''No API keys provided''), r, w)
      else case choose_index r of
        (Inl e, r1) \<Rightarrow> (Inl e, r1, w)
      | (Inr idx, r1) \<Rightarrow>
          (let (now, w1) = time_time ev w
           in case map_of (stats r1) idx of
                None \<Rightarrow> (Inl KeyError, r1, w1)
              | Some s \<Rightarrow>
                  (let r2 = r1\<lparr>stats := AList.update idx (s\<lparr>last_used := now\<rparr>) (stats r1)\<rparr>
                   in case py_index (api_keys r2) idx of
                        None \<Rightarrow> (Inl IndexError, r2, w1)
                      | Some k \<Rightarrow> (Inr \<lparr>key = Some k, index = Some idx\<rparr>, r2, w1))))"

definition record_success :: "ApiKeyRotator \<Rightarrow> int \<Rightarrow> ApiKeyRotator" where
  "record_success r i =
     (case map_of (stats r) i of
        None \<Rightarrow> r
      | Some s \<Rightarrow>
          r\<lparr>stats := AList.update i
               (s\<lparr>success_count := success_count s + 1, total_requests := total_requests s + 1\<rparr>)
               (stats r)\<rparr>)"

definition record_failure :: "ApiKeyRotator \<Rightarrow> int \<Rightarrow> ApiKeyRotator" where
  "record_failure r i =
     (case map_of (stats r) i of
        None \<Rightarrow> r
      | Some s \<Rightarrow>
          r\<lparr>stats := AList.update i
               (s\<lparr>failure_count := failure_count s + 1, total_requests := total_requests s + 1\<rparr>)
               (stats r)\<rparr>)"

text \<open>A run of \<open>n\<close> selections one after the other, nothing in between: the results in
  order, and the rotator and trace they leave. A selection that raises ends the run.\<close>

fun select_many ::
  "env \<Rightarrow> nat \<Rightarrow> ApiKeyRotator \<Rightarrow> trace \<Rightarrow> (error + key_info list) \<times> ApiKeyRotator \<times> trace" where
  "select_many ev 0 r w = (Inr [], r, w)"
| "select_many ev (Suc n) r w =
     (case select_many ev n r w of
        (Inl e, r1, w1) \<Rightarrow> (Inl e, r1, w1)
      | (Inr ks, r1, w1) \<Rightarrow>
          (case get_next_key ev r1 w1 of
             (Inl e, r2, w2) \<Rightarrow> (Inl e, r2, w2)
           | (Inr k, r2, w2) \<Rightarrow> (Inr (ks @ [k]), r2, w2)))"

section \<open>monitoring/health.py\<close>

text \<open>One entry of \<^verbatim>\<open>health_data\<close>.\<close>

record health_entry =
  response_times :: "rat list"
  successes :: int
  failures :: int
  consecutive_failures :: int

record HealthMonitor =
  health_data :: "string \<rightharpoonup> health_entry"

record ModelMetrics =
  m_total_requests :: int
  successful_requests :: int
  failed_requests :: int
  p50_response_time :: rat
  p95_response_time :: rat
  p99_response_time :: rat

record ModelHealth =
  h_model :: string
  status :: string
  success_rate :: rat
  average_response_time :: rat
  availability :: rat
  h_consecutive_failures :: int
  metrics :: ModelMetrics

definition HealthMonitor_init :: HealthMonitor where
  "HealthMonitor_init = \<lparr>health_data = Map.empty\<rparr>"

definition empty_entry :: health_entry where
  "empty_entry = \<lparr>response_times = [], successes = 0, failures = 0, consecutive_failures = 0\<rparr>"

text \<open>\<^verbatim>\<open>HealthMonitor.record_request\<close>; its \<^verbatim>\<open>error\<close> argument is not used.\<close>

definition health_record_request :: "HealthMonitor \<Rightarrow> string \<Rightarrow> rat \<Rightarrow> bool \<Rightarrow> HealthMonitor" where
  "health_record_request hm model response_time_ms success =
     (let data = (case health_data hm model of None \<Rightarrow> empty_entry | Some d \<Rightarrow> d);
          tms = response_times data @ [response_time_ms];
          tms' = (if length tms > 100 then tl tms else tms);
          data1 = data\<lparr>response_times := tms'\<rparr>;
          data2 = (if success
                   then data1\<lparr>successes := successes data1 + 1, consecutive_failures := 0\<rparr>
                   else data1\<lparr>failures := failures data1 + 1,
                              consecutive_failures := consecutive_failures data1 + 1\<rparr>)
      in hm\<lparr>health_data := (health_data hm)(model \<mapsto> data2)\<rparr>)"

text \<open>The local function \<^verbatim>\<open>get_percentile\<close> of \<^verbatim>\<open>get_health\<close>, over the sorted
  times (\<open>tms\<close>).\<close>

definition get_percentile :: "rat list \<Rightarrow> rat \<Rightarrow> rat" where
  "get_percentile tms p =
     (if tms = [] then 0
      else tms ! min (nat (py_int (rat_of_nat (length tms) * p))) (length tms - 1))"

definition get_health :: "HealthMonitor \<Rightarrow> string \<Rightarrow> ModelHealth" where
  "get_health hm model =
     (let data = (case health_data hm model of None \<Rightarrow> empty_entry | Some d \<Rightarrow> d);
          total = successes data + failures data;
          rate = (if total > 0 then rat_of_int (successes data) / rat_of_int total else 1);
          tms = sort (response_times data);
          avg_time = (if tms \<noteq> [] then sum_list tms / rat_of_nat (length tms) else 0);
          st = (if consecutive_failures data \<ge> 3 \<or> rate < 8 / 10 then ''unhealthy''
                else if rate < 95 / 100 \<or> (tms \<noteq> [] \<and> get_percentile tms (95 / 100) > 5000)
                then ''degraded''
                else ''healthy'')
      in \<lparr>h_model = model, status = st, success_rate = rate, average_response_time = avg_time,
          availability = rate, h_consecutive_failures = consecutive_failures data,
          metrics = \<lparr>m_total_requests = total, successful_requests = successes data,
                     failed_requests = failures data,
                     p50_response_time = get_percentile tms (1 / 2),
                     p95_response_time = get_percentile tms (95 / 100),
                     p99_response_time = get_percentile tms (99 / 100)\<rparr>\<rparr>)"

text \<open>A recorded history: the requests recorded to a fresh monitor, oldest first, each
  with its model, its latency and whether it succeeded.\<close>

fun record_all :: "HealthMonitor \<Rightarrow> (string \<times> rat \<times> bool) list \<Rightarrow> HealthMonitor" where
  "record_all hm [] = hm"
| "record_all hm ((model, ms, ok) # rest) = record_all (health_record_request hm model ms ok) rest"

section \<open>monitoring/rate\_limit.py\<close>

record WindowStats =
  requests_in_last_minute :: int
  requests_in_last_5_minutes :: int
  average_rpm :: rat

record RateLimitStatus =
  s_model :: string
  current_rpm :: int
  max_rpm :: int
  utilization_percent :: rat
  is_near_limit :: bool
  will_exceed_soon :: bool
  window_stats :: WindowStats

record RateLimitTracker =
  limits :: "string \<rightharpoonup> int"
  request_timestamps :: "string \<rightharpoonup> rat list"

definition RateLimitTracker_init :: RateLimitTracker where
  "RateLimitTracker_init =
     \<lparr>limits = [''gemini-2.5-flash'' \<mapsto> 15, ''gemini-2.5-flash-lite'' \<mapsto> 15,
                 ''gemini-1.5-flash'' \<mapsto> 15, ''gemini-1.5-pro'' \<mapsto> 2],
      request_timestamps = Map.empty\<rparr>"

text \<open>\<^verbatim>\<open>_cleanup\<close>. Both callers establish that the model has an entry before they
  call; on a model with no entry Python raises KeyError, and the tracker is as it was.\<close>

definition cleanup :: "RateLimitTracker \<Rightarrow> string \<Rightarrow> rat \<Rightarrow> RateLimitTracker" where
  "cleanup t model now =
     (case request_timestamps t model of
        None \<Rightarrow> t
      | Some ts \<Rightarrow>
          t\<lparr>request_timestamps := (request_timestamps t)(model \<mapsto> filter (\<lambda>x. x > now - 300) ts)\<rparr>)"

text \<open>\<^verbatim>\<open>RateLimitTracker.record_request\<close>\<close>

definition rate_record_request ::
  "env \<Rightarrow> RateLimitTracker \<Rightarrow> string \<Rightarrow> trace \<Rightarrow> RateLimitTracker \<times> trace" where
  "rate_record_request ev t model w =
     (let t1 = (case request_timestamps t model of
                  None \<Rightarrow> t\<lparr>request_timestamps := (request_timestamps t)(model \<mapsto> [])\<rparr>
                | Some ts \<Rightarrow> t);
          (now, w1) = time_time ev w;
          t2 = t1\<lparr>request_timestamps :=
                    (request_timestamps t1)(model \<mapsto> the (request_timestamps t1 model) @ [now])\<rparr>
      in (cleanup t2 model now, w1))"

definition get_status ::
  "env \<Rightarrow> RateLimitTracker \<Rightarrow> string \<Rightarrow> trace \<Rightarrow> RateLimitStatus \<times> RateLimitTracker \<times> trace" where
  "get_status ev t model w =
     (let (now, w1) = time_time ev w;
          t1 = (if request_timestamps t model \<noteq> None then cleanup t model now else t);
          timestamps = (case request_timestamps t1 model of None \<Rightarrow> [] | Some ts \<Rightarrow> ts);
          one_min_ago = now - 60;
          req_last_min = int (length (filter (\<lambda>x. x > one_min_ago) timestamps));
          mx = (case limits t1 model of None \<Rightarrow> 15 | Some l \<Rightarrow> l);
          utilization = (if mx > 0 then (rat_of_int req_last_min / rat_of_int mx) * 100 else 0)
      in (\<lparr>s_model = model, current_rpm = req_last_min, max_rpm = mx,
            utilization_percent = utilization, is_near_limit = (utilization \<ge> 80),
            will_exceed_soon = (utilization \<ge> 90),
            window_stats = \<lparr>requests_in_last_minute = req_last_min,
                              requests_in_last_5_minutes = int (length timestamps),
                              average_rpm = rat_of_nat (length timestamps) / 5\<rparr>\<rparr>,
          t1, w1))"

definition would_exceed_limit ::
  "env \<Rightarrow> RateLimitTracker \<Rightarrow> string \<Rightarrow> trace \<Rightarrow> bool \<times> RateLimitTracker \<times> trace" where
  "would_exceed_limit ev t model w =
     (let (st, t1, w1) = get_status ev t model w in (current_rpm st \<ge> max_rpm st, t1, w1))"

text \<open>\<^verbatim>\<open>get_recommended_wait_time\<close>. The clock is read once inside
  \<^verbatim>\<open>would_exceed_limit\<close> and a second time for \<^verbatim>\<open>now\<close>;
  \<^verbatim>\<open>valid_timestamps[0]\<close> on the empty list is an IndexError.\<close>

definition get_recommended_wait_time ::
  "env \<Rightarrow> RateLimitTracker \<Rightarrow> string \<Rightarrow> trace \<Rightarrow> (error + int) \<times> RateLimitTracker \<times> trace" where
  "get_recommended_wait_time ev t model w =
     (let (exceeds, t1, w1) = would_exceed_limit ev t model w
      in if \<not> exceeds then (Inr 0, t1, w1)
         else
           (let timestamps = (case request_timestamps t1 model of None \<Rightarrow> [] | Some ts \<Rightarrow> ts)
            in if timestamps = [] then (Inr 0, t1, w1)
               else
                 (let (now, w2) = time_time ev w1;
                      one_min_ago = now - 60;
                      valid_timestamps = sort (filter (\<lambda>x. x > one_min_ago) timestamps)
                  in case valid_timestamps of
                       [] \<Rightarrow> (Inl IndexError, t1, w2)
                     | oldest_in_window # _ \<Rightarrow>
                         (let expiry = oldest_in_window + 60;
                              wait_seconds = max 0 (expiry - now)
                          in (Inr (py_int (wait_seconds * 1000)), t1, w2)))))"

section \<open>client.py: construction\<close>

record GemBack =
  options :: GemBackOptions
  rotator :: "ApiKeyRotator option"
  single_key :: "string option"
  rate_limit_tracker :: "RateLimitTracker option"
  health_monitor :: "HealthMonitor option"

text \<open>Truthiness of an optional string or list: \<open>None\<close> and the empty one are falsy.\<close>

definition truthy :: "'a list option \<Rightarrow> bool" where
  "truthy x = (case x of None \<Rightarrow> False | Some v \<Rightarrow> v \<noteq> [])"

text \<open>\<^verbatim>\<open>self.options.api_keys or ([self.options.api_key] if self.options.api_key else [])\<close>\<close>

definition resolved_api_keys :: "GemBackOptions \<Rightarrow> string list" where
  "resolved_api_keys opts =
     (if truthy (options_api_keys opts) then the (options_api_keys opts)
      else if truthy (api_key opts) then [the (api_key opts)] else [])"

text \<open>The standard \<^verbatim>\<open>logging\<close> module, as far as the constructor reaches it. The
  attributes that \<^verbatim>\<open>getattr(logging, log_level.upper(), logging.INFO)\<close> can find have
  upper-case names: the level numbers, the string \<^verbatim>\<open>BASIC_FORMAT\<close> and the dictionary
  \<^verbatim>\<open>_STYLES\<close>.\<close>

datatype log_value = LevelInt int | LevelStr string | LevelOther

definition level_names :: "string list" where
  "level_names = [''CRITICAL'', ''FATAL'', ''ERROR'', ''WARN'', ''WARNING'', ''INFO'', ''DEBUG'',
                  ''NOTSET'']"

definition logging_getattr :: "string \<Rightarrow> log_value option" where
  "logging_getattr name =
     (if name = ''CRITICAL'' \<or> name = ''FATAL'' then Some (LevelInt 50)
      else if name = ''ERROR'' then Some (LevelInt 40)
      else if name = ''WARN'' \<or> name = ''WARNING'' then Some (LevelInt 30)
      else if name = ''INFO'' then Some (LevelInt 20)
      else if name = ''DEBUG'' then Some (LevelInt 10)
      else if name = ''NOTSET'' then Some (LevelInt 0)
      else if name = ''BASIC_FORMAT'' then Some (LevelStr ''%(levelname)s:%(name)s:%(message)s'')
      else if name = ''_STYLES'' then Some LevelOther
      else None)"

text \<open>\<^verbatim>\<open>Logger.setLevel\<close>: the exception it raises, if any (\<^verbatim>\<open>logging._checkLevel\<close>). The
  level it sets on the logger is not part of the client. The message of the
  \<^verbatim>\<open>TypeError\<close> goes on with the value given, which is left out here.\<close>

definition setLevel :: "log_value \<Rightarrow> error option" where
  "setLevel v =
     (case v of
        LevelInt n \<Rightarrow> None
      | LevelStr s \<Rightarrow>
          if s \<in> set level_names then None else Some (ValueError (''Unknown level: '' @ py_repr s))
      | LevelOther \<Rightarrow> Some (TypeError ''Level not an integer or a valid string''))"

text \<open>The logger set-up of \<^verbatim>\<open>GemBack.__init__\<close>, which runs before the validation.\<close>

definition configure_logger :: "GemBackOptions \<Rightarrow> error option" where
  "configure_logger opts =
     (if debug opts then setLevel (LevelInt 10)
      else if log_level opts \<noteq> ''INFO''
      then setLevel (case logging_getattr (upper (log_level opts)) of
                       None \<Rightarrow> LevelInt 20
                     | Some v \<Rightarrow> v)
      else None)"

text \<open>\<^verbatim>\<open>GemBack.__init__\<close>, from the options its keyword arguments set.\<close>

definition GemBack_init :: "GemBackOptions \<Rightarrow> error + GemBack" where
  "GemBack_init opts =
     (case configure_logger opts of
        Some err \<Rightarrow> Inl err
      | None \<Rightarrow>
     if \<not> truthy (api_key opts) \<and> \<not> truthy (options_api_keys opts)
      then Inl (ValueError ''Either api_key or api_keys must be provided'')
      else
        (let keys = resolved_api_keys opts
         in Inr \<lparr>options = opts,
                 rotator = (if length keys > 1
                            then Some (ApiKeyRotator_init keys (api_key_rotation_strategy opts))
                            else None),
                 single_key = (case keys of [] \<Rightarrow> None | k # _ \<Rightarrow> Some k),
                 rate_limit_tracker =
                   (if enable_monitoring opts then Some RateLimitTracker_init else None),
                 health_monitor =
                   (if enable_monitoring opts then Some HealthMonitor_init else None)\<rparr>))"

text \<open>The second implementation, \<^verbatim>\<open>src/client.py\<close>: \<^verbatim>\<open>GemBackConfig\<close> and
  \<^verbatim>\<open>GemBackClient.__init__\<close>.\<close>

record GemBackConfig =
  config_api_keys :: "string list"
  config_fallback_order :: "string list"
  config_max_retries :: int
  config_timeout :: int
  config_retry_delay :: int

record GemBackClient =
  config :: GemBackConfig
  current_key_index :: int

definition GemBackClient_init :: "GemBackConfig \<Rightarrow> error + GemBackClient" where
  "GemBackClient_init cfg =
     (if config_api_keys cfg = [] then Inl (ValueError ''At least one API key is required'')
      else Inr \<lparr>config = cfg, current_key_index = 0\<rparr>)"

section \<open>client.py: generate\<close>

definition get_api_key :: "env \<Rightarrow> GemBack \<Rightarrow> trace \<Rightarrow> (error + key_info) \<times> GemBack \<times> trace" where
  "get_api_key ev c w =
     (case rotator c of
        Some r \<Rightarrow> (let (res, r1, w1) = get_next_key ev r w in (res, c\<lparr>rotator := Some r1\<rparr>, w1))
      | None \<Rightarrow> (Inr \<lparr>key = single_key c, index = None\<rparr>, c, w))"

text \<open>\<^verbatim>\<open>getattr(e, "code", None) or getattr(e, "status_code", None)\<close>\<close>

definition get_status_code :: "py_exception \<Rightarrow> int option" where
  "get_status_code e = py_or (exc_code e) (exc_status_code e)"

text \<open>The value of \<^verbatim>\<open>is_retryable\<close> in \<^verbatim>\<open>_generate_with_retry\<close>.\<close>

definition is_retryable :: "py_exception \<Rightarrow> bool" where
  "is_retryable e =
     ((case get_status_code e of None \<Rightarrow> False | Some s \<Rightarrow> s \<noteq> 0 \<and> s \<ge> 500)
      \<or> str_contains ''timeout'' (lower (exc_str e))
      \<or> str_contains ''connection'' (lower (exc_str e)))"

text \<open>The \<^verbatim>\<open>OverflowError\<close> of a multiplication of a float by an integer that no
  float can hold. It has no \<^verbatim>\<open>code\<close> and no \<^verbatim>\<open>status_code\<close>.\<close>

definition overflow_error :: py_exception where
  "overflow_error = \<lparr>exc_code = None, exc_status_code = None,
                      exc_str = ''int too large to convert to float''\<rparr>"

text \<open>\<^verbatim>\<open>self.options.retry_delay * (2 ** (retries - 1))\<close>, with \<^verbatim>\<open>retries\<close> already
  incremented, so that the exponent is not negative. The power is an exact integer;
  multiplying the float \<^verbatim>\<open>retry_delay\<close> by it first converts it to a float, which raises
  \<^verbatim>\<open>OverflowError\<close> from \<^verbatim>\<open>2 ** 1024\<close> on. The product itself is taken exactly.\<close>

definition backoff_delay :: "rat \<Rightarrow> int \<Rightarrow> py_exception + rat" where
  "backoff_delay d retries =
     (if 1024 \<le> nat (retries - 1) then Inl overflow_error
      else Inr (d * 2 ^ nat (retries - 1)))"

text \<open>The \<^verbatim>\<open>while True\<close> loop of \<^verbatim>\<open>_generate_with_retry\<close>, from a value of
  \<^verbatim>\<open>retries\<close>. An exception of the delay computation is raised inside the
  \<^verbatim>\<open>except\<close> block and leaves the function.\<close>

function retry_loop ::
  "env \<Rightarrow> GemBackOptions \<Rightarrow> string \<Rightarrow> string \<Rightarrow> int \<Rightarrow> trace
     \<Rightarrow> (py_exception + remote_response) \<times> trace" where
  "retry_loop ev opts mdl prompt retries w =
     (case generate_content ev w mdl prompt of
        (Returns response, w1) \<Rightarrow> (Inr response, w1)
      | (Raises e, w1) \<Rightarrow>
          (if get_status_code e = Some 429 then (Inl e, w1)
           else if is_retryable e \<and> retries < max_retries opts
           then (case backoff_delay (retry_delay opts) (retries + 1) of
                   Inl err \<Rightarrow> (Inl err, w1)
                 | Inr delay \<Rightarrow>
                     retry_loop ev opts mdl prompt (retries + 1) (asyncio_sleep w1 delay))
           else (Inl e, w1)))"
  by pat_completeness auto
termination
  by (relation "measure (\<lambda>(ev, opts, mdl, prompt, retries, w). nat (max_retries opts - retries))")
     auto

declare retry_loop.simps [simp del]

definition generate_with_retry ::
  "env \<Rightarrow> GemBackOptions \<Rightarrow> string \<Rightarrow> string \<Rightarrow> trace \<Rightarrow> (py_exception + remote_response) \<times> trace" where
  "generate_with_retry ev opts mdl prompt w = retry_loop ev opts mdl prompt 0 w"

text \<open>\<^verbatim>\<open>[model] if model else self.options.fallback_order\<close>\<close>

definition models_to_try :: "GemBackOptions \<Rightarrow> string option \<Rightarrow> string list" where
  "models_to_try opts mdl = (if truthy mdl then [the mdl] else fallback_order opts)"

text \<open>The rate limit prediction at the head of the loop body, outside its \<^verbatim>\<open>try\<close>: an
  exception of the tracker (\<open>Some err\<close>) leaves \<^verbatim>\<open>generate\<close> as it is. The wait is
  only logged.\<close>

definition rate_limit_prediction ::
  "env \<Rightarrow> GemBack \<Rightarrow> string \<Rightarrow> trace \<Rightarrow> error option \<times> GemBack \<times> trace" where
  "rate_limit_prediction ev c current_model w =
     (case rate_limit_tracker c of
        None \<Rightarrow> (None, c, w)
      | Some t \<Rightarrow>
          (let (exceeds, t1, w1) = would_exceed_limit ev t current_model w
           in if exceeds
              then (case get_recommended_wait_time ev t1 current_model w1 of
                      (Inl err, t2, w2) \<Rightarrow> (Some err, c\<lparr>rate_limit_tracker := Some t2\<rparr>, w2)
                    | (Inr wait, t2, w2) \<Rightarrow> (None, c\<lparr>rate_limit_tracker := Some t2\<rparr>, w2))
              else (None, c\<lparr>rate_limit_tracker := Some t1\<rparr>, w1)))"

text \<open>\<^verbatim>\<open>if self.rate_limit_tracker: self.rate_limit_tracker.record_request(model)\<close>\<close>

definition track_request :: "env \<Rightarrow> GemBack \<Rightarrow> string \<Rightarrow> trace \<Rightarrow> GemBack \<times> trace" where
  "track_request ev c current_model w =
     (case rate_limit_tracker c of
        None \<Rightarrow> (c, w)
      | Some t \<Rightarrow>
          (let (t1, w1) = rate_record_request ev t current_model w
           in (c\<lparr>rate_limit_tracker := Some t1\<rparr>, w1)))"

text \<open>\<^verbatim>\<open>if self.health_monitor: self.health_monitor.record_request(...)\<close>\<close>

definition monitor_request :: "GemBack \<Rightarrow> string \<Rightarrow> rat \<Rightarrow> bool \<Rightarrow> GemBack" where
  "monitor_request c current_model duration success =
     (case health_monitor c of
        None \<Rightarrow> c
      | Some h \<Rightarrow> c\<lparr>health_monitor := Some (health_record_request h current_model duration success)\<rparr>)"

text \<open>\<^verbatim>\<open>if self.rotator and key_index is not None: self.rotator.record_success(key_index)\<close>,
  and the same for a failure.\<close>

definition rotator_success :: "GemBack \<Rightarrow> int option \<Rightarrow> GemBack" where
  "rotator_success c key_idx =
     (case (rotator c, key_idx) of
        (Some r, Some i) \<Rightarrow> c\<lparr>rotator := Some (record_success r i)\<rparr>
      | _ \<Rightarrow> c)"

definition rotator_failure :: "GemBack \<Rightarrow> int option \<Rightarrow> GemBack" where
  "rotator_failure c key_idx =
     (case (rotator c, key_idx) of
        (Some r, Some i) \<Rightarrow> c\<lparr>rotator := Some (record_failure r i)\<rparr>
      | _ \<Rightarrow> c)"

text \<open>One pass of the \<^verbatim>\<open>for current_model in models_to_try\<close> loop of
  \<^verbatim>\<open>generate\<close>. The first component is \<open>Some\<close> of what the call returns or raises when
  the pass leaves the loop, and \<open>None\<close> when the loop goes on to the next model.\<close>

definition generate_step ::
  "env \<Rightarrow> string \<Rightarrow> int option \<Rightarrow> string \<Rightarrow> GemBack \<Rightarrow> trace \<Rightarrow> AttemptRecord list
     \<Rightarrow> (error + GeminiResponse) option \<times> GemBack \<times> trace \<times> AttemptRecord list" where
  "generate_step ev prompt key_idx current_model c w attempts =
     (case rate_limit_prediction ev c current_model w of
        (Some err, c1, w1) \<Rightarrow> (Some (Inl err), c1, w1, attempts)
      | (None, c1, w1) \<Rightarrow>
          (let (start_time, w2) = time_time ev w1;
               (c2, w3) = track_request ev c1 current_model w2
           in case generate_with_retry ev (options c2) current_model prompt w3 of
                (Inr response, w4) \<Rightarrow>
                  (let (t_end, w5) = time_time ev w4;
                       duration = (t_end - start_time) * 1000;
                       c3 = monitor_request c2 current_model duration True;
                       c4 = rotator_success c3 key_idx
                   in (Some (Inr \<lparr>g_text = response_text response, g_model = current_model,
                                   raw_response = response\<rparr>), c4, w5, attempts))
              | (Inl e, w4) \<Rightarrow>
                  (let (t_end, w5) = time_time ev w4;
                       duration = (t_end - start_time) * 1000;
                       c3 = monitor_request c2 current_model duration False;
                       status_code = get_status_code e;
                       err_msg = exc_str e;
                       (ts, w6) = time_time ev w5;
                       attempts1 = attempts @ [\<lparr>ar_model = current_model, ar_error = err_msg,
                                                 timestamp = ts, ar_status_code = status_code\<rparr>]
                   in if status_code = Some 401 \<or> status_code = Some 403
                      then (Some (Inl (GeminiBackError ''Authentication failed'' ''AUTH_ERROR''
                                         attempts1 status_code (Some current_model))),
                            rotator_failure c3 key_idx, w6, attempts1)
                      else (None, c3, w6, attempts1))))"

fun generate_loop ::
  "env \<Rightarrow> string \<Rightarrow> int option \<Rightarrow> string list \<Rightarrow> GemBack \<Rightarrow> trace \<Rightarrow> AttemptRecord list
     \<Rightarrow> (error + GeminiResponse) \<times> GemBack \<times> trace" where
  "generate_loop ev prompt key_idx [] c w attempts =
     (Inl (GeminiBackError ''All models failed'' ''ALL_MODELS_FAILED'' attempts None None),
      rotator_failure c key_idx, w)"
| "generate_loop ev prompt key_idx (current_model # rest) c w attempts =
     (case generate_step ev prompt key_idx current_model c w attempts of
        (Some res, c1, w1, attempts1) \<Rightarrow> (res, c1, w1)
      | (None, c1, w1, attempts1) \<Rightarrow> generate_loop ev prompt key_idx rest c1 w1 attempts1)"

definition generate ::
  "env \<Rightarrow> GemBack \<Rightarrow> string \<Rightarrow> string option \<Rightarrow> trace \<Rightarrow> (error + GeminiResponse) \<times> GemBack \<times> trace" where
  "generate ev c prompt mdl w =
     (case get_api_key ev c w of
        (Inl err, c1, w1) \<Rightarrow> (Inl err, c1, w1)
      | (Inr ki, c1, w1) \<Rightarrow>
          generate_loop ev prompt (index ki) (models_to_try (options c) mdl) c1 w1 [])"

section \<open>client.py: generate\_stream\<close>

text \<open>One pass of the loop of \<^verbatim>\<open>generate_stream\<close>, for a consumer that reads the stream
  to its end. The result holds whether the generator returns here (\<open>True\<close>) or goes on to
  the next model, and the fragments yielded so far.\<close>

definition stream_step ::
  "env \<Rightarrow> string \<Rightarrow> string \<Rightarrow> GemBack \<Rightarrow> trace \<Rightarrow> AttemptRecord list \<Rightarrow> string list
     \<Rightarrow> bool \<times> GemBack \<times> trace \<times> AttemptRecord list \<times> string list" where
  "stream_step ev prompt current_model c w attempts yielded =
     (let (c1, w1) = track_request ev c current_model w;
          (start_time, w2) = time_time ev w1;
          (s, w3) = generate_content_stream ev w2 current_model prompt;
          yielded1 = yielded @ chunks s;
          has_yielded = (chunks s \<noteq> [])
      in case stream_raises s of
           None \<Rightarrow>
             (if has_yielded
              then (let (t_end, w4) = time_time ev w3;
                        duration = (t_end - start_time) * 1000
                    in (True, monitor_request c1 current_model duration True, w4, attempts,
                        yielded1))
              else (False, c1, w3, attempts, yielded1))
         | Some e \<Rightarrow>
             (let (t_end, w4) = time_time ev w3;
                  duration = (t_end - start_time) * 1000;
                  c2 = monitor_request c1 current_model duration False;
                  (ts, w5) = time_time ev w4
              in (False, c2, w5,
                  attempts @ [\<lparr>ar_model = current_model, ar_error = exc_str e, timestamp = ts,
                                ar_status_code = None\<rparr>],
                  yielded1)))"

fun stream_loop ::
  "env \<Rightarrow> string \<Rightarrow> string list \<Rightarrow> GemBack \<Rightarrow> trace \<Rightarrow> AttemptRecord list \<Rightarrow> string list
     \<Rightarrow> string list \<times> error option \<times> GemBack \<times> trace" where
  "stream_loop ev prompt [] c w attempts yielded =
     (yielded,
      Some (GeminiBackError ''All models failed for stream'' ''ALL_MODELS_FAILED'' attempts
              None None),
      c, w)"
| "stream_loop ev prompt (current_model # rest) c w attempts yielded =
     (case stream_step ev prompt current_model c w attempts yielded of
        (True, c1, w1, attempts1, yielded1) \<Rightarrow> (yielded1, None, c1, w1)
      | (False, c1, w1, attempts1, yielded1) \<Rightarrow>
          stream_loop ev prompt rest c1 w1 attempts1 yielded1)"

text \<open>\<^verbatim>\<open>generate_stream\<close>: the fragments the generator yields, then how it ends
  (\<open>None\<close> for a normal return, \<open>Some\<close> for the exception it raises).\<close>

definition generate_stream ::
  "env \<Rightarrow> GemBack \<Rightarrow> string \<Rightarrow> string option \<Rightarrow> trace
     \<Rightarrow> string list \<times> error option \<times> GemBack \<times> trace" where
  "generate_stream ev c prompt mdl w =
     (case get_api_key ev c w of
        (Inl err, c1, w1) \<Rightarrow> ([], Some err, c1, w1)
      | (Inr ki, c1, w1) \<Rightarrow> stream_loop ev prompt (models_to_try (options c) mdl) c1 w1 [] [])"

section \<open>Concrete inputs\<close>

definition trace0 :: trace where
  "trace0 = \<lparr>ticks = 0, calls = [], sleeps = [], stream_calls = []\<rparr>"

text \<open>Two requests to \<^verbatim>\<open>gemini-1.5-pro\<close> (limit 2 per minute) are recorded at time 100;
  the third and fourth clock readings are 159.9999 and 160.0001, either side of the moment
  the two requests leave the 60 second window.\<close>

definition race_env :: env where
  "race_env = \<lparr>clock = (\<lambda>k. if k < 2 then 100 else if k = 2 then 1599999 / 10000 else 1600001 / 10000),
               remote = (\<lambda>k m p. Returns \<lparr>response_text = ''ok''\<rparr>),
               remote_stream = (\<lambda>k m p. \<lparr>chunks = [], stream_raises = None\<rparr>)\<rparr>"

definition race_tracker :: "RateLimitTracker \<times> trace" where
  "race_tracker =
     (let (t1, w1) = rate_record_request race_env RateLimitTracker_init ''gemini-1.5-pro'' trace0
      in rate_record_request race_env t1 ''gemini-1.5-pro'' w1)"

text \<open>The clients \<^verbatim>\<open>GemBack(api_key="key-a")\<close>, \<^verbatim>\<open>GemBack(api_keys=["key-a", "key-b"])\<close>
  and \<^verbatim>\<open>GemBack(api_key="key-a", enable_monitoring=True)\<close> as their constructor leaves
  them, and the second one after its first credential selection at time 0.\<close>

definition single_options :: GemBackOptions where
  "single_options = GemBackOptions_init\<lparr>api_key := Some ''key-a''\<rparr>"

definition single_client :: GemBack where
  "single_client = \<lparr>options = single_options, rotator = None, single_key = Some ''key-a'',
                     rate_limit_tracker = None, health_monitor = None\<rparr>"

definition multi_options :: GemBackOptions where
  "multi_options = GemBackOptions_init\<lparr>options_api_keys := Some [''key-a'', ''key-b'']\<rparr>"

definition multi_client :: GemBack where
  "multi_client = \<lparr>options = multi_options,
                    rotator = Some (ApiKeyRotator_init [''key-a'', ''key-b''] ''round-robin''),
                    single_key = Some ''key-a'',
                    rate_limit_tracker = None, health_monitor = None\<rparr>"

definition monitored_client :: GemBack where
  "monitored_client = \<lparr>options = single_options\<lparr>enable_monitoring := True\<rparr>, rotator = None,
                        single_key = Some ''key-a'',
                        rate_limit_tracker = Some RateLimitTracker_init,
                        health_monitor = Some HealthMonitor_init\<rparr>"

definition multi_selected :: GemBack where
  "multi_selected = multi_client\<lparr>rotator := Some
      \<lparr>api_keys = [''key-a'', ''key-b''], strategy = ''round-robin'', current_index = 1,
        stats = [(0, KeyStats_init 0), (1, KeyStats_init 1)]\<rparr>\<rparr>"

text \<open>A service whose every invocation raises the same exception and whose every stream
  ends at once without a fragment; the k-th clock reading is k.\<close>

definition always_raises :: "py_exception \<Rightarrow> env" where
  "always_raises e = \<lparr>clock = (\<lambda>k. rat_of_nat k), remote = (\<lambda>k m p. Raises e),
                      remote_stream = (\<lambda>k m p. \<lparr>chunks = [], stream_raises = None\<rparr>)\<rparr>"

definition connection_401 :: py_exception where
  "connection_401 = \<lparr>exc_code = Some 401, exc_status_code = None, exc_str = ''Connection reset''\<rparr>"

definition plain_401 :: py_exception where
  "plain_401 = \<lparr>exc_code = Some 401, exc_status_code = None, exc_str = ''Unauthorized''\<rparr>"

definition quota_429 :: py_exception where
  "quota_429 = \<lparr>exc_code = Some 429, exc_status_code = None, exc_str = ''Rate limit''\<rparr>"

definition server_500 :: py_exception where
  "server_500 = \<lparr>exc_code = Some 500, exc_status_code = None, exc_str = ''Server error''\<rparr>"

text \<open>A service whose first invocation raises \<open>connection_401\<close> and every later one
  \<open>plain_401\<close>.\<close>

definition auth_env :: env where
  "auth_env = \<lparr>clock = (\<lambda>k. rat_of_nat k),
               remote = (\<lambda>k m p. if k = 0 then Raises connection_401 else Raises plain_401),
               remote_stream = (\<lambda>k m p. \<lparr>chunks = [], stream_raises = None\<rparr>)\<rparr>"


text \<open>The options of a client with one key, a budget of 1025 retries and a base delay of
  0 seconds.\<close>

definition patient_options :: GemBackOptions where
  "patient_options = single_options\<lparr>max_retries := 1025, retry_delay := 0\<rparr>"

section \<open>The recorded history of a model\<close>

text \<open>The history of a model, as the specification speaks of it: the latency and the
  outcome of each request recorded for the model, oldest first.\<close>

definition model_history :: "string \<Rightarrow> (string \<times> rat \<times> bool) list \<Rightarrow> (rat \<times> bool) list" where
  "model_history m hist = map snd (filter (\<lambda>r. fst r = m) hist)"

text \<open>The consecutive failures of a history are the failures recorded since the last
  success.\<close>

definition recorded_consecutive_failures :: "(rat \<times> bool) list \<Rightarrow> int" where
  "recorded_consecutive_failures rs = int (length (takeWhile (\<lambda>r. \<not> snd r) (rev rs)))"

text \<open>The success rate of a history is the share of its successes, and 1 for the empty
  history.\<close>

definition recorded_success_rate :: "(rat \<times> bool) list \<Rightarrow> rat" where
  "recorded_success_rate rs =
     (if rs = [] then 1 else rat_of_nat (length (filter snd rs)) / rat_of_nat (length rs))"

text \<open>The buffer of a history holds its 100 most recent latencies.\<close>

definition recorded_buffer :: "(rat \<times> bool) list \<Rightarrow> rat list" where
  "recorded_buffer rs = drop (length rs - 100) (map fst rs)"

text \<open>The percentile \<open>p\<close> of a buffer of \<open>n\<close> latencies is the entry of index \<open>floor (n * p)\<close>,
  clamped to \<open>n - 1\<close>, of the buffer sorted in ascending order, and 0 for the empty
  buffer.\<close>

definition nearest_rank :: "rat list \<Rightarrow> rat \<Rightarrow> rat" where
  "nearest_rank buf p =
     (if buf = [] then 0
      else sort buf ! min (nat \<lfloor>rat_of_nat (length buf) * p\<rfloor>) (length buf - 1))"

text \<open>The entry of \<^verbatim>\<open>health_data\<close> that \<^verbatim>\<open>get_health\<close> reads for a model.\<close>

definition entry_of :: "HealthMonitor \<Rightarrow> string \<Rightarrow> health_entry" where
  "entry_of hm m = (case health_data hm m of None \<Rightarrow> empty_entry | Some d \<Rightarrow> d)"

section \<open>Proof vocabulary\<close>

text \<open>The invariant of a round-robin rotator built from \<open>keys\<close>, after \<open>n\<close> selections.\<close>

definition rr_inv :: "string list \<Rightarrow> nat \<Rightarrow> ApiKeyRotator \<Rightarrow> bool" where
  "rr_inv keys n r =
     (api_keys r = keys \<and> strategy r = ''round-robin'' \<and>
      map fst (stats r) = map int [0..<length keys] \<and>
      current_index r = int (n mod length keys))"

text \<open>No reachable entry has a negative count of consecutive failures.\<close>

definition cf_nonneg :: "HealthMonitor \<Rightarrow> bool" where
  "cf_nonneg hm = (\<forall>m d. health_data hm m = Some d \<longrightarrow> 0 \<le> consecutive_failures d)"

text \<open>Only the clock was read between two traces.\<close>

definition quiet :: "trace \<Rightarrow> trace \<Rightarrow> bool" where
  "quiet w w' = (calls w' = calls w \<and> sleeps w' = sleeps w \<and> stream_calls w' = stream_calls w)"

text \<open>Nothing but the rate limit tracker differs between two clients.\<close>

definition same_but_tracker :: "GemBack \<Rightarrow> GemBack \<Rightarrow> bool" where
  "same_but_tracker c c' =
     (options c' = options c \<and> rotator c' = rotator c \<and> single_key c' = single_key c
      \<and> health_monitor c' = health_monitor c)"

section \<open>Credential rotation\<close>

lemma rr_inv_init: "rr_inv keys 0 (ApiKeyRotator_init keys ''round-robin'')"
  by (simp add: rr_inv_def ApiKeyRotator_init_def comp_def)

lemma rr_step:
  assumes inv: "rr_inv keys n r" and ne: "keys \<noteq> []"
  shows "\<exists>r' w'. get_next_key ev r w =
           (Inr \<lparr>key = Some (keys ! (n mod length keys)),
                  index = Some (int (n mod length keys))\<rparr>, r', w')
         \<and> rr_inv keys (Suc n) r'"
proof -
  let ?c = "n mod length keys"
  have lt: "?c < length keys" using ne by simp
  have mem: "int ?c \<in> fst ` set (stats r)"
  proof -
    have "int ?c \<in> set (map int [0..<length keys])" using lt by simp
    then have "int ?c \<in> set (map fst (stats r))" using inv by (simp only: rr_inv_def)
    then show ?thesis by simp
  qed
  then obtain s where s: "map_of (stats r) (int ?c) = Some s"
    by (metis map_of_eq_None_iff not_Some_eq)
  have "int (Suc n mod length keys) = (int n + 1) mod int (length keys)"
    by (simp add: zmod_int add.commute)
  also have "\<dots> = (int ?c + 1) mod int (length keys)"
    by (simp add: zmod_int mod_add_left_eq)
  finally have nxt: "(int ?c + 1) mod int (length keys) = int (Suc n mod length keys)"
    by simp
  show ?thesis
    using inv ne s lt mem nxt
    by (simp add: get_next_key_def choose_index_def rr_inv_def time_time_def py_index_def
        update_keys)
qed

lemma select_many_rr:
  assumes ne: "keys \<noteq> []"
  shows "\<exists>r' w'. select_many ev n (ApiKeyRotator_init keys ''round-robin'') w =
           (Inr (map (\<lambda>i. \<lparr>key = Some (keys ! (i mod length keys)),
                           index = Some (int (i mod length keys))\<rparr>) [0..<n]), r', w')
         \<and> rr_inv keys n r'"
proof (induction n)
  case 0
  show ?case by (simp add: rr_inv_init)
next
  case (Suc n)
  then obtain r1 w1 where
    run: "select_many ev n (ApiKeyRotator_init keys ''round-robin'') w =
           (Inr (map (\<lambda>i. \<lparr>key = Some (keys ! (i mod length keys)),
                           index = Some (int (i mod length keys))\<rparr>) [0..<n]), r1, w1)"
    and inv: "rr_inv keys n r1" by blast
  from rr_step[OF inv ne, of ev w1] obtain r2 w2 where
    st: "get_next_key ev r1 w1 =
           (Inr \<lparr>key = Some (keys ! (n mod length keys)),
                  index = Some (int (n mod length keys))\<rparr>, r2, w2)"
    and inv2: "rr_inv keys (Suc n) r2" by blast
  show ?case using run st inv2 by simp
qed

text \<open>
  Claim C5. A rotator is built from \<open>k \<ge> 1\<close> credentials under the round-robin strategy,
  and selections follow one another with nothing in between. The run of the first
  \<open>i + 1\<close> selections raises nothing; its last selection, the \<open>i\<close>-th counted from 0,
  returns the credential at index \<open>i mod k\<close> together with that index, and the cursor
  it leaves is \<open>(i + 1) mod k\<close>.
\<close>

theorem round_robin_selection:
  assumes "keys \<noteq> []"
  shows "\<exists>ks r' w'.
      select_many ev (Suc i) (ApiKeyRotator_init keys ''round-robin'') w = (Inr ks, r', w')
      \<and> length ks = Suc i
      \<and> ks ! i = \<lparr>key = Some (keys ! (i mod length keys)),
                   index = Some (int (i mod length keys))\<rparr>
      \<and> current_index r' = int (Suc i mod length keys)"
proof -
  from select_many_rr[OF assms, of ev "Suc i" w] obtain r' w' where
    run: "select_many ev (Suc i) (ApiKeyRotator_init keys ''round-robin'') w =
           (Inr (map (\<lambda>i. \<lparr>key = Some (keys ! (i mod length keys)),
                           index = Some (int (i mod length keys))\<rparr>) [0..<Suc i]), r', w')"
    and inv: "rr_inv keys (Suc i) r'" by blast
  have "map (\<lambda>i. \<lparr>key = Some (keys ! (i mod length keys)),
                           index = Some (int (i mod length keys))\<rparr>) [0..<Suc i] ! i
        = \<lparr>key = Some (keys ! (i mod length keys)), index = Some (int (i mod length keys))\<rparr>"
    by (simp add: nth_append)
  then show ?thesis using run inv unfolding rr_inv_def
    by (intro exI conjI) (assumption | simp)+
qed

theorem round_robin_selection_witness:
  "\<exists>ks r' w'.
      select_many race_env 5 (ApiKeyRotator_init [''k0'', ''k1'', ''k2''] ''round-robin'') trace0
        = (Inr ks, r', w')
      \<and> length ks = 5
      \<and> ks ! 4 = \<lparr>key = Some ''k1'', index = Some 1\<rparr>
      \<and> current_index r' = 2"
  using round_robin_selection[of "[''k0'', ''k1'', ''k2'']" race_env 4 trace0] by simp

text \<open>
  Claim C9. For every rotator state and every index that is not a key of the rotator's
  stats table, \<^verbatim>\<open>record_success\<close> and \<^verbatim>\<open>record_failure\<close> raise nothing and leave the
  rotator as it was: every counter of every credential and the cursor are unchanged.
\<close>

theorem record_unknown_index_noop:
  assumes "i \<notin> fst ` set (stats r)"
  shows "record_success r i = r \<and> record_failure r i = r"
proof -
  from assms have "map_of (stats r) i = None" by (simp add: map_of_eq_None_iff)
  then show ?thesis by (simp add: record_success_def record_failure_def)
qed

theorem record_unknown_index_noop_witness:
  "record_success (ApiKeyRotator_init [''k0'', ''k1''] ''round-robin'') 7
     = ApiKeyRotator_init [''k0'', ''k1''] ''round-robin''
   \<and> record_failure (ApiKeyRotator_init [''k0'', ''k1''] ''round-robin'') (- 1)
     = ApiKeyRotator_init [''k0'', ''k1''] ''round-robin''"
proof -
  have two: "[0..<length [''k0'', ''k1'']] = [0, 1]" by (simp add: upt_rec)
  have h7: "(7::int) \<notin> fst ` set (stats (ApiKeyRotator_init [''k0'', ''k1''] ''round-robin''))"
    unfolding ApiKeyRotator_init_def by (simp add: two)
  have hm: "(- 1::int) \<notin> fst ` set (stats (ApiKeyRotator_init [''k0'', ''k1''] ''round-robin''))"
    unfolding ApiKeyRotator_init_def by (simp add: two)
  show ?thesis
    using record_unknown_index_noop[OF h7] record_unknown_index_noop[OF hm] by simp
qed

section \<open>Health status\<close>

lemma get_percentile_empty: "get_percentile [] p = 0"
  by (simp add: get_percentile_def)

lemma cf_nonneg_record: "cf_nonneg hm \<Longrightarrow> cf_nonneg (health_record_request hm m ms ok)"
  by (auto simp: cf_nonneg_def health_record_request_def Let_def empty_entry_def
      split: option.splits if_splits)

lemma cf_nonneg_record_all: "cf_nonneg hm \<Longrightarrow> cf_nonneg (record_all hm hist)"
  by (induction hm hist rule: record_all.induct) (simp_all add: cf_nonneg_record)

lemma record_all_append: "record_all hm (xs @ ys) = record_all (record_all hm xs) ys"
  by (induction hm xs rule: record_all.induct) simp_all

lemma three_failures:
  assumes "cf_nonneg hm"
  shows "status (get_health (record_all hm [(m, a, False), (m, b, False), (m, c, False)]) m)
           = ''unhealthy''"
proof -
  let ?h1 = "health_record_request hm m a False"
  let ?h2 = "health_record_request ?h1 m b False"
  let ?h3 = "health_record_request ?h2 m c False"
  have e1: "\<exists>d. health_data ?h1 m = Some d \<and> 1 \<le> consecutive_failures d"
    using assms
    by (auto simp: health_record_request_def Let_def cf_nonneg_def empty_entry_def
        split: option.splits)
  then have e2: "\<exists>d. health_data ?h2 m = Some d \<and> 2 \<le> consecutive_failures d"
    by (auto simp: health_record_request_def Let_def)
  then have e3: "\<exists>d. health_data ?h3 m = Some d \<and> 3 \<le> consecutive_failures d"
    by (auto simp: health_record_request_def Let_def)
  then show ?thesis by (auto simp: get_health_def Let_def)
qed

text \<open>The percentile of \<^verbatim>\<open>get_health\<close> is the nearest rank of the specification.\<close>

lemma sort_Nil: "sort (buf :: rat list) = [] \<longleftrightarrow> buf = []"
  by (metis length_sort length_0_conv)

lemma get_percentile_sort:
  "0 \<le> p \<Longrightarrow> get_percentile (sort buf) p = nearest_rank buf p"
  by (simp add: get_percentile_def nearest_rank_def py_int_def sort_Nil)

text \<open>What \<^verbatim>\<open>get_health\<close> reports, in terms of the entry it reads.\<close>

lemma health_of_entry:
  "success_rate (get_health hm m) =
     (if successes (entry_of hm m) + failures (entry_of hm m) > 0
      then rat_of_int (successes (entry_of hm m))
             / rat_of_int (successes (entry_of hm m) + failures (entry_of hm m))
      else 1)"
  "h_consecutive_failures (get_health hm m) = consecutive_failures (entry_of hm m)"
  "p95_response_time (metrics (get_health hm m))
     = nearest_rank (response_times (entry_of hm m)) (95 / 100)"
  "status (get_health hm m) =
     (if h_consecutive_failures (get_health hm m) \<ge> 3 \<or> success_rate (get_health hm m) < 8 / 10
      then ''unhealthy''
      else if success_rate (get_health hm m) < 95 / 100
              \<or> p95_response_time (metrics (get_health hm m)) > 5000
      then ''degraded'' else ''healthy'')"
proof -
  show "success_rate (get_health hm m) =
     (if successes (entry_of hm m) + failures (entry_of hm m) > 0
      then rat_of_int (successes (entry_of hm m))
             / rat_of_int (successes (entry_of hm m) + failures (entry_of hm m))
      else 1)"
    by (simp add: get_health_def entry_of_def Let_def)
  show "h_consecutive_failures (get_health hm m) = consecutive_failures (entry_of hm m)"
    by (simp add: get_health_def entry_of_def Let_def)
  show "p95_response_time (metrics (get_health hm m))
     = nearest_rank (response_times (entry_of hm m)) (95 / 100)"
    by (simp add: get_health_def entry_of_def Let_def get_percentile_sort)
  show "status (get_health hm m) =
     (if h_consecutive_failures (get_health hm m) \<ge> 3 \<or> success_rate (get_health hm m) < 8 / 10
      then ''unhealthy''
      else if success_rate (get_health hm m) < 95 / 100
              \<or> p95_response_time (metrics (get_health hm m)) > 5000
      then ''degraded'' else ''healthy'')"
    by (simp add: get_health_def Let_def get_percentile_empty)
qed

text \<open>One more request of a model, in terms of its history.\<close>

lemma recorded_cf_snoc:
  "recorded_consecutive_failures (rs @ [(ms, ok)])
     = (if ok then 0 else recorded_consecutive_failures rs + 1)"
  by (simp add: recorded_consecutive_failures_def)

lemma recorded_buffer_snoc:
  "recorded_buffer (rs @ [(ms, ok)])
     = (if length (recorded_buffer rs @ [ms]) > 100 then tl (recorded_buffer rs @ [ms])
        else recorded_buffer rs @ [ms])"
proof (cases "length rs < 100")
  case True
  then show ?thesis by (simp add: recorded_buffer_def)
next
  case False
  then obtain k where k: "length rs = 100 + k"
    by (metis le_iff_add not_less)
  have b: "recorded_buffer rs = drop k (map fst rs)"
    by (simp add: recorded_buffer_def k)
  have len: "length (recorded_buffer rs) = 100"
    by (simp add: b k)
  have ne: "drop k (map fst rs) \<noteq> []"
    using len b by auto
  have "recorded_buffer (rs @ [(ms, ok)]) = drop (Suc k) (map fst rs @ [ms])"
    by (simp add: recorded_buffer_def k)
  also have "\<dots> = drop (Suc k) (map fst rs) @ [ms]"
    by (simp add: k)
  also have "\<dots> = tl (drop k (map fst rs)) @ [ms]"
    by (simp add: drop_Suc tl_drop)
  also have "\<dots> = tl (drop k (map fst rs) @ [ms])"
    using ne by simp
  finally show ?thesis using len b by simp
qed

lemma entry_of_record:
  "entry_of (health_record_request hm m' ms ok) m =
     (if m = m'
      then \<lparr>response_times =
               (if length (response_times (entry_of hm m) @ [ms]) > 100
                then tl (response_times (entry_of hm m) @ [ms])
                else response_times (entry_of hm m) @ [ms]),
             successes = (if ok then successes (entry_of hm m) + 1 else successes (entry_of hm m)),
             failures = (if ok then failures (entry_of hm m) else failures (entry_of hm m) + 1),
             consecutive_failures = (if ok then 0 else consecutive_failures (entry_of hm m) + 1)\<rparr>
      else entry_of hm m)"
  by (cases "entry_of hm m") (simp add: entry_of_def health_record_request_def Let_def)

lemma model_history_snoc:
  "model_history m (hist @ [(m', ms, ok)])
     = (if m' = m then model_history m hist @ [(ms, ok)] else model_history m hist)"
  by (simp add: model_history_def)

text \<open>The entry of a model after a history recorded to a fresh monitor: the buffer, the
  counts and the consecutive failures of the history of the model.\<close>

lemma recorded_entry:
  "entry_of (record_all HealthMonitor_init hist) m =
     \<lparr>response_times = recorded_buffer (model_history m hist),
      successes = int (length (filter snd (model_history m hist))),
      failures = int (length (filter (\<lambda>r. \<not> snd r) (model_history m hist))),
      consecutive_failures = recorded_consecutive_failures (model_history m hist)\<rparr>"
proof (induction hist rule: rev_induct)
  case Nil
  show ?case
    by (simp add: entry_of_def HealthMonitor_init_def empty_entry_def model_history_def
        recorded_buffer_def recorded_consecutive_failures_def)
next
  case (snoc x xs)
  obtain m' ms ok where x: "x = (m', ms, ok)" by (cases x) auto
  have step: "record_all HealthMonitor_init (xs @ [(m', ms, ok)])
                = health_record_request (record_all HealthMonitor_init xs) m' ms ok"
    by (simp add: record_all_append)
  show ?case
  proof (cases "m' = m")
    case False
    then show ?thesis
      unfolding x step model_history_snoc entry_of_record using snoc.IH by simp
  next
    case True
    show ?thesis
      unfolding x step model_history_snoc entry_of_record snoc.IH
      using True by (simp add: recorded_cf_snoc recorded_buffer_snoc)
  qed
qed

lemma recorded_rate:
  "(if int (length (filter snd rs)) + int (length (filter (\<lambda>r. \<not> snd r) rs)) > 0
    then rat_of_int (int (length (filter snd rs)))
           / rat_of_int (int (length (filter snd rs)) + int (length (filter (\<lambda>r. \<not> snd r) rs)))
    else 1) = recorded_success_rate rs"
proof -
  have "length (filter snd rs) + length (filter (\<lambda>r. \<not> snd r) rs) = length rs"
    by (rule sum_length_filter_compl)
  then have "int (length (filter snd rs)) + int (length (filter (\<lambda>r. \<not> snd r) rs))
               = int (length rs)"
    by linarith
  then show ?thesis by (simp add: recorded_success_rate_def)
qed

text \<open>What \<^verbatim>\<open>get_health\<close> reports after a recorded history.\<close>

lemma health_of_history:
  "success_rate (get_health (record_all HealthMonitor_init hist) m)
     = recorded_success_rate (model_history m hist)"
  "h_consecutive_failures (get_health (record_all HealthMonitor_init hist) m)
     = recorded_consecutive_failures (model_history m hist)"
  "p95_response_time (metrics (get_health (record_all HealthMonitor_init hist) m))
     = nearest_rank (recorded_buffer (model_history m hist)) (95 / 100)"
proof -
  show "success_rate (get_health (record_all HealthMonitor_init hist) m)
     = recorded_success_rate (model_history m hist)"
    by (simp only: health_of_entry(1) recorded_entry health_entry.select_convs recorded_rate)
  show "h_consecutive_failures (get_health (record_all HealthMonitor_init hist) m)
     = recorded_consecutive_failures (model_history m hist)"
    by (simp only: health_of_entry(2) recorded_entry health_entry.select_convs)
  show "p95_response_time (metrics (get_health (record_all HealthMonitor_init hist) m))
     = nearest_rank (recorded_buffer (model_history m hist)) (95 / 100)"
    by (simp only: health_of_entry(3) recorded_entry health_entry.select_convs)
qed

text \<open>
  Claim C7. For every history recorded to a fresh monitor, oldest request first, and every
  model: the success rate, the consecutive failures and the p95 latency that
  \<^verbatim>\<open>get_health\<close> reports are those of the history of the model (the share of its
  successes, the failures since its last success, the nearest rank over its 100 most
  recent latencies); the status is \<^verbatim>\<open>unhealthy\<close> exactly when the history has at least
  3 consecutive failures or a success rate below 0.8; otherwise it is \<^verbatim>\<open>degraded\<close>
  exactly when the success rate is below 0.95 or the p95 latency exceeds 5000 ms;
  otherwise it is \<^verbatim>\<open>healthy\<close>. And three failures of a model recorded in a row make its
  status \<^verbatim>\<open>unhealthy\<close>, whatever its success rate.
\<close>

theorem health_status_rule:
  "success_rate (get_health (record_all HealthMonitor_init hist) m)
     = recorded_success_rate (model_history m hist)
   \<and> h_consecutive_failures (get_health (record_all HealthMonitor_init hist) m)
     = recorded_consecutive_failures (model_history m hist)
   \<and> p95_response_time (metrics (get_health (record_all HealthMonitor_init hist) m))
     = nearest_rank (recorded_buffer (model_history m hist)) (95 / 100)
   \<and> (status (get_health (record_all HealthMonitor_init hist) m) = ''unhealthy'' \<longleftrightarrow>
        recorded_consecutive_failures (model_history m hist) \<ge> 3
        \<or> recorded_success_rate (model_history m hist) < 8 / 10)
   \<and> (status (get_health (record_all HealthMonitor_init hist) m) = ''degraded'' \<longleftrightarrow>
        \<not> (recorded_consecutive_failures (model_history m hist) \<ge> 3
            \<or> recorded_success_rate (model_history m hist) < 8 / 10)
        \<and> (recorded_success_rate (model_history m hist) < 95 / 100
            \<or> nearest_rank (recorded_buffer (model_history m hist)) (95 / 100) > 5000))
   \<and> (status (get_health (record_all HealthMonitor_init hist) m) = ''healthy'' \<longleftrightarrow>
        \<not> (recorded_consecutive_failures (model_history m hist) \<ge> 3
            \<or> recorded_success_rate (model_history m hist) < 8 / 10)
        \<and> \<not> (recorded_success_rate (model_history m hist) < 95 / 100
            \<or> nearest_rank (recorded_buffer (model_history m hist)) (95 / 100) > 5000))
   \<and> status (get_health
        (record_all HealthMonitor_init (hist @ [(m, a, False), (m, b, False), (m, c, False)])) m)
       = ''unhealthy''"
proof -
  have "cf_nonneg HealthMonitor_init" by (simp add: cf_nonneg_def HealthMonitor_init_def)
  then have "cf_nonneg (record_all HealthMonitor_init hist)" by (rule cf_nonneg_record_all)
  then have last: "status (get_health
        (record_all HealthMonitor_init (hist @ [(m, a, False), (m, b, False), (m, c, False)])) m)
       = ''unhealthy''"
    unfolding record_all_append by (rule three_failures)
  have st: "status (get_health (record_all HealthMonitor_init hist) m) =
     (if recorded_consecutive_failures (model_history m hist) \<ge> 3
         \<or> recorded_success_rate (model_history m hist) < 8 / 10
      then ''unhealthy''
      else if recorded_success_rate (model_history m hist) < 95 / 100
              \<or> nearest_rank (recorded_buffer (model_history m hist)) (95 / 100) > 5000
      then ''degraded'' else ''healthy'')"
    by (subst health_of_entry(4)) (simp only: health_of_history)
  show ?thesis using last by (simp add: st health_of_history)
qed

section \<open>Recommended wait\<close>

lemma py_int_nonneg: "0 \<le> x \<Longrightarrow> 0 \<le> py_int x"
  by (simp add: py_int_def)

lemma race_tracker_val:
  "request_timestamps (fst race_tracker) ''gemini-1.5-pro'' = Some [100, 100]
   \<and> ticks (snd race_tracker) = 2
   \<and> limits (fst race_tracker) ''gemini-1.5-pro'' = Some 2"
  by (simp add: race_tracker_def rate_record_request_def RateLimitTracker_init_def time_time_def
      race_env_def trace0_def cleanup_def Let_def)

text \<open>Below its limit the model gets a wait of 0.\<close>

lemma wait_time_not_exceeding:
  "\<not> fst (would_exceed_limit ev t m w) \<Longrightarrow> fst (get_recommended_wait_time ev t m w) = Inr 0"
  by (simp add: get_recommended_wait_time_def split_beta)

text \<open>At or over its limit, and with a request still inside the 60 seconds before the
  second clock reading, the wait is the time until the oldest such request leaves that
  window, in whole milliseconds, and is not negative.\<close>

lemma wait_time_window:
  assumes "would_exceed_limit ev t m w = (True, t1, w1)"
    and "request_timestamps t1 m = Some ts"
    and "time_time ev w1 = (now, w2)"
    and "filter (\<lambda>x. x > now - 60) ts \<noteq> []"
  shows "fst (get_recommended_wait_time ev t m w) =
           Inr (py_int (max 0 (Min (set (filter (\<lambda>x. x > now - 60) ts)) + 60 - now) * 1000))
         \<and> 0 \<le> py_int (max 0 (Min (set (filter (\<lambda>x. x > now - 60) ts)) + 60 - now) * 1000)"
proof -
  let ?v = "filter (\<lambda>x. x > now - 60) ts"
  have "sort ?v \<noteq> []" using assms(4) by (metis length_sort length_0_conv)
  then obtain o1 rest where sv: "sort ?v = o1 # rest" by (cases "sort ?v") auto
  have "sorted (sort ?v)" by simp
  then have srt: "sorted (o1 # rest)" by (simp only: sv)
  have "set (sort ?v) = set ?v" by simp
  then have st: "set ?v = set (o1 # rest)" by (simp only: sv)
  have "Min (set (o1 # rest)) = o1"
    using srt by (intro Min_eqI) auto
  then have o1: "o1 = Min (set ?v)" using st by simp
  have tsne: "ts \<noteq> []" using assms(4) by auto
  show ?thesis using assms sv o1 tsne
    by (simp add: get_recommended_wait_time_def py_int_nonneg Let_def)
qed

text \<open>
  Claim C6. \<^verbatim>\<open>get_recommended_wait_time\<close> is to return an integer \<open>\<ge> 0\<close> for every model
  and window state. It reads the clock twice: once to decide that the model is at its
  limit, once for \<^verbatim>\<open>now\<close>. When the last requests of the window expire between the two
  readings, \<^verbatim>\<open>valid_timestamps\<close> is empty and \<^verbatim>\<open>valid_timestamps[0]\<close> raises IndexError:
  no integer is returned. Here two requests at time 100, readings 159.9999 and 160.0001.
\<close>

theorem wait_time_index_error:
  "fst (get_recommended_wait_time race_env (fst race_tracker) ''gemini-1.5-pro''
          (snd race_tracker))
     = Inl IndexError"
  using race_tracker_val
  by (simp add: get_recommended_wait_time_def would_exceed_limit_def get_status_def
      time_time_def race_env_def cleanup_def Let_def split_beta)

section \<open>Construction\<close>

text \<open>When the logger set-up returns, \<^verbatim>\<open>GemBack.__init__\<close> raises its credentials error
  exactly when no credential is given, and returns a client otherwise;
  \<^verbatim>\<open>GemBackClient.__init__\<close> does so in every case.\<close>

lemma construction_after_logger:
  assumes "configure_logger opts = None"
  shows "(GemBack_init opts = Inl (ValueError ''Either api_key or api_keys must be provided'')
            \<longleftrightarrow> resolved_api_keys opts = [])
       \<and> ((\<exists>c. GemBack_init opts = Inr c) \<longleftrightarrow> resolved_api_keys opts \<noteq> [])"
  using assms
  by (auto simp: GemBack_init_def resolved_api_keys_def truthy_def Let_def split: option.splits)

lemma no_credentials:
  "resolved_api_keys opts = [] \<longleftrightarrow>
     (api_key opts = None \<or> api_key opts = Some [])
     \<and> (options_api_keys opts = None \<or> options_api_keys opts = Some [])"
  by (auto simp: resolved_api_keys_def truthy_def split: option.splits)

lemma construction_client:
  "(GemBackClient_init cfg = Inl (ValueError ''At least one API key is required'')
        \<longleftrightarrow> config_api_keys cfg = [])
   \<and> ((\<exists>c. GemBackClient_init cfg = Inr c) \<longleftrightarrow> config_api_keys cfg \<noteq> [])"
  by (auto simp: GemBackClient_init_def)

lemma upper_basic_format: "upper ''basic_format'' = ''BASIC_FORMAT''"
  by code_simp

lemma upper_styles: "upper ''_styles'' = ''_STYLES''"
  by code_simp

lemma logger_basic_format:
  "log_level opts = ''basic_format'' \<Longrightarrow> \<not> debug opts \<Longrightarrow>
   configure_logger opts
     = Some (ValueError (''Unknown level: '' @ py_repr ''%(levelname)s:%(name)s:%(message)s''))"
  by (simp add: configure_logger_def upper_basic_format logging_getattr_def setLevel_def
      level_names_def)

lemma logger_styles:
  "log_level opts = ''_styles'' \<Longrightarrow> \<not> debug opts \<Longrightarrow>
   configure_logger opts = Some (TypeError ''Level not an integer or a valid string'')"
  by (simp add: configure_logger_def upper_styles logging_getattr_def setLevel_def)

text \<open>
  Claim C8. Construction with zero credentials is to fail with the error of the missing
  credentials, and construction with a credential is not to fail with it.
  \<^verbatim>\<open>GemBack.__init__\<close> sets the level of its logger before it validates the credentials,
  with \<^verbatim>\<open>getattr(logging, log_level.upper(), logging.INFO)\<close>; for
  \<^verbatim>\<open>log_level = "basic_format"\<close> this is the string \<^verbatim>\<open>logging.BASIC_FORMAT\<close>, and
  \<^verbatim>\<open>setLevel\<close> raises \<^verbatim>\<open>ValueError\<close> for an unknown level: with no credential the
  constructor fails with this error and not with that of the credentials, and with a
  credential it fails with a \<^verbatim>\<open>ValueError\<close> all the same. For \<^verbatim>\<open>log_level = "_styles"\<close>
  and no credential it fails with a \<^verbatim>\<open>TypeError\<close>.
\<close>

theorem construction_fails_in_logger:
  "GemBack_init (GemBackOptions_init\<lparr>log_level := ''basic_format''\<rparr>)
     = Inl (ValueError (''Unknown level: '' @ py_repr ''%(levelname)s:%(name)s:%(message)s''))
   \<and> GemBack_init (GemBackOptions_init\<lparr>api_key := Some ''key-a'', log_level := ''basic_format''\<rparr>)
     = Inl (ValueError (''Unknown level: '' @ py_repr ''%(levelname)s:%(name)s:%(message)s''))
   \<and> GemBack_init (GemBackOptions_init\<lparr>log_level := ''_styles''\<rparr>)
     = Inl (TypeError ''Level not an integer or a valid string'')
   \<and> resolved_api_keys (GemBackOptions_init\<lparr>log_level := ''basic_format''\<rparr>) = []
   \<and> resolved_api_keys
        (GemBackOptions_init\<lparr>api_key := Some ''key-a'', log_level := ''basic_format''\<rparr>)
       = [''key-a'']"
  by (simp add: GemBack_init_def logger_basic_format logger_styles GemBackOptions_init_def
      resolved_api_keys_def truthy_def)

section \<open>The retry loop\<close>

lemma retry_loop_429:
  assumes "remote ev (length (calls w)) mdl prompt = Raises e" and "get_status_code e = Some 429"
  shows "retry_loop ev opts mdl prompt retries w = (Inl e, w\<lparr>calls := calls w @ [mdl]\<rparr>)"
  by (subst retry_loop.simps) (simp add: assms generate_content_def)

lemma retry_loop_no_retry:
  assumes "remote ev (length (calls w)) mdl prompt = Raises e"
    and "\<not> (is_retryable e \<and> retries < max_retries opts)"
  shows "retry_loop ev opts mdl prompt retries w = (Inl e, w\<lparr>calls := calls w @ [mdl]\<rparr>)"
  using assms by (subst retry_loop.simps) (auto simp add: generate_content_def)

lemma backoff_small: "nat r < 1024 \<Longrightarrow> backoff_delay d (r + 1) = Inr (d * 2 ^ nat r)"
  by (simp add: backoff_delay_def)

lemma backoff_large: "1024 \<le> nat r \<Longrightarrow> backoff_delay d (r + 1) = Inl overflow_error"
  by (simp add: backoff_delay_def)

lemma retry_step:
  assumes "remote ev (length (calls w)) m p = Raises e" and "get_status_code e \<noteq> Some 429"
    and "is_retryable e" and "r < max_retries opts" and "nat r < 1024"
  shows "retry_loop ev opts m p r w =
           retry_loop ev opts m p (r + 1)
             (asyncio_sleep (w\<lparr>calls := calls w @ [m]\<rparr>) (retry_delay opts * 2 ^ nat r))"
  using assms by (subst retry_loop.simps) (simp add: generate_content_def backoff_small)

lemma retry_overflow:
  assumes "remote ev (length (calls w)) m p = Raises e" and "get_status_code e \<noteq> Some 429"
    and "is_retryable e" and "r < max_retries opts" and "1024 \<le> nat r"
  shows "retry_loop ev opts m p r w = (Inl overflow_error, w\<lparr>calls := calls w @ [m]\<rparr>)"
  using assms by (subst retry_loop.simps) (simp add: generate_content_def backoff_large)

lemma retry_loop_transient:
  assumes all: "\<forall>k. \<exists>e. remote ev k mdl prompt = Raises e \<and> is_retryable e"
    and bound: "max_retries opts \<le> 1024"
  shows "n = nat (max_retries opts - r) \<Longrightarrow> 0 \<le> r \<Longrightarrow>
     \<exists>e w' j. retry_loop ev opts mdl prompt r w = (Inl e, w')
       \<and> j \<le> nat (max_retries opts - r)
       \<and> calls w' = calls w @ replicate (Suc j) mdl
       \<and> remote ev (length (calls w) + j) mdl prompt = Raises e
       \<and> sleeps w' = sleeps w @ map (\<lambda>k. retry_delay opts * 2 ^ (nat r + k)) [0..<j]
       \<and> ((\<forall>k e. remote ev k mdl prompt = Raises e \<longrightarrow> get_status_code e \<noteq> Some 429)
            \<longrightarrow> j = nat (max_retries opts - r))"
proof (induction n arbitrary: r w)
  case 0
  from all obtain e where e: "remote ev (length (calls w)) mdl prompt = Raises e" "is_retryable e"
    by blast
  have "\<not> (is_retryable e \<and> r < max_retries opts)" using 0 by simp
  from retry_loop_no_retry[OF e(1) this]
  have "retry_loop ev opts mdl prompt r w = (Inl e, w\<lparr>calls := calls w @ [mdl]\<rparr>)" .
  then show ?case using e 0 by (intro exI[of _ e] exI[of _ "w\<lparr>calls := calls w @ [mdl]\<rparr>"] exI[of _ 0]) simp
next
  case (Suc n)
  from all obtain e where e: "remote ev (length (calls w)) mdl prompt = Raises e" "is_retryable e"
    by blast
  have lt: "r < max_retries opts" using Suc.prems by linarith
  show ?case
  proof (cases "get_status_code e = Some 429")
    case True
    from retry_loop_429[OF e(1) True]
    have "retry_loop ev opts mdl prompt r w = (Inl e, w\<lparr>calls := calls w @ [mdl]\<rparr>)" .
    then show ?thesis using e True
      by (intro exI[of _ e] exI[of _ "w\<lparr>calls := calls w @ [mdl]\<rparr>"] exI[of _ 0]) auto
  next
    case False
    let ?w1 = "asyncio_sleep (w\<lparr>calls := calls w @ [mdl]\<rparr>) (retry_delay opts * 2 ^ nat (r + 1 - 1))"
    have small: "nat r < 1024" using lt bound Suc.prems by linarith
    have step: "retry_loop ev opts mdl prompt r w = retry_loop ev opts mdl prompt (r + 1) ?w1"
      using retry_step[OF e(1) False e(2) lt small] by simp
    have n: "n = nat (max_retries opts - (r + 1))" using Suc.prems by linarith
    have r1: "0 \<le> r + 1" using Suc.prems by simp
    from Suc.IH[OF n r1, of ?w1] obtain e' w' j where
      run: "retry_loop ev opts mdl prompt (r + 1) ?w1 = (Inl e', w')"
      and j: "j \<le> nat (max_retries opts - (r + 1))"
      and cs: "calls w' = calls ?w1 @ replicate (Suc j) mdl"
      and last: "remote ev (length (calls ?w1) + j) mdl prompt = Raises e'"
      and sl: "sleeps w' = sleeps ?w1 @ map (\<lambda>k. retry_delay opts * 2 ^ (nat (r + 1) + k)) [0..<j]"
      and ex: "(\<forall>k e. remote ev k mdl prompt = Raises e \<longrightarrow> get_status_code e \<noteq> Some 429)
            \<longrightarrow> j = nat (max_retries opts - (r + 1))"
      by blast
    have nr: "nat (r + 1) = Suc (nat r)" using Suc.prems by simp
    have m1: "map (\<lambda>k. retry_delay opts * 2 ^ (nat r + k)) [0..<Suc j] =
        (retry_delay opts * 2 ^ nat r) # map (\<lambda>k. retry_delay opts * 2 ^ (nat (r + 1) + k)) [0..<j]"
      by (simp add: upt_conv_Cons map_Suc_upt[symmetric] nr del: upt_Suc)
    have a: "Suc j \<le> nat (max_retries opts - r)" using j lt by linarith
    have b: "calls w' = calls w @ replicate (Suc (Suc j)) mdl"
      using cs by (simp add: asyncio_sleep_def replicate_app_Cons_same)
    have c: "remote ev (length (calls w) + Suc j) mdl prompt = Raises e'"
      using last by (simp add: asyncio_sleep_def)
    have d: "sleeps w' = sleeps w @ map (\<lambda>k. retry_delay opts * 2 ^ (nat r + k)) [0..<Suc j]"
      unfolding m1 using sl by (simp add: asyncio_sleep_def)
    have f: "(\<forall>k e. remote ev k mdl prompt = Raises e \<longrightarrow> get_status_code e \<noteq> Some 429)
            \<longrightarrow> Suc j = nat (max_retries opts - r)"
      using ex lt by auto
    show ?thesis
      unfolding step using run a b c d f
      by (intro exI[of _ e'] exI[of _ w'] exI[of _ "Suc j"]) (simp only: simp_thms)
  qed
qed

lemma retry_loop_fails:
  assumes all: "\<forall>k. \<exists>e. remote ev k mdl prompt = Raises e \<and> P e"
    and ov: "P overflow_error"
  shows "n = nat (max_retries opts - r) \<Longrightarrow>
     \<exists>e w'. retry_loop ev opts mdl prompt r w = (Inl e, w') \<and> P e \<and> stream_calls w' = stream_calls w"
proof (induction n arbitrary: r w)
  case 0
  from all obtain e where e: "remote ev (length (calls w)) mdl prompt = Raises e" "P e"
    by blast
  have "\<not> (is_retryable e \<and> r < max_retries opts)" using 0 by simp
  from retry_loop_no_retry[OF e(1) this] e(2) show ?case by simp
next
  case (Suc n)
  from all obtain e where e: "remote ev (length (calls w)) mdl prompt = Raises e" "P e"
    by blast
  show ?case
  proof (cases "get_status_code e = Some 429 \<or> \<not> (is_retryable e \<and> r < max_retries opts)")
    case True
    then have "retry_loop ev opts mdl prompt r w = (Inl e, w\<lparr>calls := calls w @ [mdl]\<rparr>)"
      using retry_loop_429[OF e(1)] retry_loop_no_retry[OF e(1)] by blast
    then show ?thesis using e(2) by simp
  next
    case False
    then have f: "get_status_code e \<noteq> Some 429" "is_retryable e" "r < max_retries opts"
      by auto
    show ?thesis
    proof (cases "nat r < 1024")
      case True
      let ?w1 = "asyncio_sleep (w\<lparr>calls := calls w @ [mdl]\<rparr>) (retry_delay opts * 2 ^ nat r)"
      have step: "retry_loop ev opts mdl prompt r w = retry_loop ev opts mdl prompt (r + 1) ?w1"
        using e(1) f True by (rule retry_step)
      have n: "n = nat (max_retries opts - (r + 1))" using Suc.prems by linarith
      from Suc.IH[OF n, of ?w1] show ?thesis unfolding step by (simp add: asyncio_sleep_def)
    next
      case False
      then have "1024 \<le> nat r" by simp
      with e(1) f have "retry_loop ev opts mdl prompt r w
                          = (Inl overflow_error, w\<lparr>calls := calls w @ [mdl]\<rparr>)"
        by (rule retry_overflow)
      then show ?thesis using ov by simp
    qed
  qed
qed

text \<open>When every invocation fails with a transient error other than 429 and the budget
  exceeds 1024, the loop started at \<open>r \<le> 1024\<close> retries until \<open>retries = 1024\<close>, and the
  delay of the next retry overflows: the loop raises \<^verbatim>\<open>OverflowError\<close>.\<close>

lemma retry_loop_overflow:
  assumes all: "\<forall>k. \<exists>e. remote ev k mdl prompt = Raises e \<and> is_retryable e
                  \<and> get_status_code e \<noteq> Some 429"
    and big: "1024 < max_retries opts"
  shows "n = nat (1024 - r) \<Longrightarrow> 0 \<le> r \<Longrightarrow> r \<le> 1024 \<Longrightarrow>
     \<exists>w'. retry_loop ev opts mdl prompt r w = (Inl overflow_error, w')
       \<and> calls w' = calls w @ replicate (Suc n) mdl
       \<and> sleeps w' = sleeps w @ map (\<lambda>k. retry_delay opts * 2 ^ (nat r + k)) [0..<n]"
proof (induction n arbitrary: r w)
  case 0
  from all obtain e where e: "remote ev (length (calls w)) mdl prompt = Raises e"
    "is_retryable e" "get_status_code e \<noteq> Some 429" by blast
  have r: "r < max_retries opts" "1024 \<le> nat r" using 0 big by linarith+
  from retry_overflow[OF e(1) e(3) e(2) r] show ?case by simp
next
  case (Suc n)
  from all obtain e where e: "remote ev (length (calls w)) mdl prompt = Raises e"
    "is_retryable e" "get_status_code e \<noteq> Some 429" by blast
  have r: "r < max_retries opts" "nat r < 1024" using Suc.prems big by linarith+
  let ?w1 = "asyncio_sleep (w\<lparr>calls := calls w @ [mdl]\<rparr>) (retry_delay opts * 2 ^ nat r)"
  have step: "retry_loop ev opts mdl prompt r w = retry_loop ev opts mdl prompt (r + 1) ?w1"
    using e(1) e(3) e(2) r by (rule retry_step)
  have n: "n = nat (1024 - (r + 1))" using Suc.prems by linarith
  have r1: "0 \<le> r + 1" "r + 1 \<le> 1024" using Suc.prems by linarith+
  from Suc.IH[OF n r1, of ?w1] obtain w' where
    run: "retry_loop ev opts mdl prompt (r + 1) ?w1 = (Inl overflow_error, w')"
    and cs: "calls w' = calls ?w1 @ replicate (Suc n) mdl"
    and sl: "sleeps w' = sleeps ?w1 @ map (\<lambda>k. retry_delay opts * 2 ^ (nat (r + 1) + k)) [0..<n]"
    by blast
  have nr: "nat (r + 1) = Suc (nat r)" using Suc.prems by simp
  have m1: "map (\<lambda>k. retry_delay opts * 2 ^ (nat r + k)) [0..<Suc n] =
      (retry_delay opts * 2 ^ nat r) # map (\<lambda>k. retry_delay opts * 2 ^ (nat (r + 1) + k)) [0..<n]"
    by (simp add: upt_conv_Cons map_Suc_upt[symmetric] nr del: upt_Suc)
  have b: "calls w' = calls w @ replicate (Suc (Suc n)) mdl"
    using cs by (simp add: asyncio_sleep_def replicate_app_Cons_same)
  have d: "sleeps w' = sleeps w @ map (\<lambda>k. retry_delay opts * 2 ^ (nat r + k)) [0..<Suc n]"
    unfolding m1 using sl by (simp add: asyncio_sleep_def)
  show ?case unfolding step using run b d by blast
qed

lemma quiet_ticks: "quiet w w' \<Longrightarrow> w' = w\<lparr>ticks := ticks w'\<rparr>"
  by (cases w, cases w') (simp add: quiet_def)

lemma retry_loop_ticks:
  "k = nat (max_retries opts - r) \<Longrightarrow>
   retry_loop ev opts m p r \<lparr>ticks = n, calls = cs, sleeps = sl, stream_calls = sc\<rparr> =
     (fst (retry_loop ev opts m p r \<lparr>ticks = n0, calls = cs, sleeps = sl, stream_calls = sc\<rparr>),
      (snd (retry_loop ev opts m p r \<lparr>ticks = n0, calls = cs, sleeps = sl, stream_calls = sc\<rparr>))
        \<lparr>ticks := n\<rparr>)"
proof (induction k arbitrary: r cs sl)
  case 0
  then have nr: "\<not> r < max_retries opts" by simp
  show ?case
    by (subst retry_loop.simps, subst (2) retry_loop.simps, subst (3) retry_loop.simps)
       (simp add: generate_content_def nr split: outcome.splits)
next
  case (Suc k)
  have n: "k = nat (max_retries opts - (r + 1))" using Suc.prems by linarith
  note IH = Suc.IH[OF n]
  show ?case
    by (subst retry_loop.simps, subst (2) retry_loop.simps, subst (3) retry_loop.simps)
       (simp add: generate_content_def asyncio_sleep_def IH split: outcome.splits sum.splits)
qed

lemma status_401: "get_status_code connection_401 = Some 401" "get_status_code plain_401 = Some 401"
  by (simp_all add: get_status_code_def py_or_def connection_401_def plain_401_def)

lemma status_429: "get_status_code quota_429 = Some 429"
  by (simp add: get_status_code_def py_or_def quota_429_def)

lemma status_500: "get_status_code server_500 = Some 500"
  by (simp add: get_status_code_def py_or_def server_500_def)

lemma retryable_connection_401: "is_retryable connection_401"
  by code_simp

lemma not_retryable_plain_401: "\<not> is_retryable plain_401"
  by code_simp

lemma retryable_server_500: "is_retryable server_500"
  by code_simp

text \<open>With a budget of at most 1024, and every invocation failing with a transient error:
  the loop re-raises the error of its last invocation after \<open>j + 1 \<le> n + 1\<close> invocations,
  the delays are \<open>d * 2 ^ (k - 1)\<close> for the retries \<open>k = 1, \<dots>, j\<close>, and \<open>j = n\<close> when no error
  has status 429.\<close>

lemma transient_retry_bounded:
  assumes "\<forall>k. \<exists>e. remote ev k mdl prompt = Raises e \<and> is_retryable e"
    and "max_retries opts \<le> 1024"
  shows "\<exists>e w' j. generate_with_retry ev opts mdl prompt w = (Inl e, w')
      \<and> j \<le> nat (max_retries opts)
      \<and> calls w' = calls w @ replicate (Suc j) mdl
      \<and> remote ev (length (calls w) + j) mdl prompt = Raises e
      \<and> sleeps w' = sleeps w @ map (\<lambda>k. retry_delay opts * 2 ^ (k - 1)) [1..<Suc j]
      \<and> ((\<forall>k e. remote ev k mdl prompt = Raises e \<longrightarrow> get_status_code e \<noteq> Some 429)
           \<longrightarrow> j = nat (max_retries opts))"
proof -
  from retry_loop_transient[OF assms refl, where r = 0 and w = w] obtain e w' j where
    h: "retry_loop ev opts mdl prompt 0 w = (Inl e, w')
       \<and> j \<le> nat (max_retries opts - 0)
       \<and> calls w' = calls w @ replicate (Suc j) mdl
       \<and> remote ev (length (calls w) + j) mdl prompt = Raises e
       \<and> sleeps w' = sleeps w @ map (\<lambda>k. retry_delay opts * 2 ^ (nat 0 + k)) [0..<j]
       \<and> ((\<forall>k e. remote ev k mdl prompt = Raises e \<longrightarrow> get_status_code e \<noteq> Some 429)
            \<longrightarrow> j = nat (max_retries opts - 0))"
    by blast
  have "map (\<lambda>k. retry_delay opts * 2 ^ (k - 1)) [1..<Suc j]
        = map (\<lambda>k. retry_delay opts * 2 ^ (nat 0 + k)) [0..<j]"
    by (simp add: map_Suc_upt[symmetric] comp_def del: upt_Suc)
  then show ?thesis using h unfolding generate_with_retry_def
    by (intro exI[of _ e] exI[of _ w'] exI[of _ j]) simp
qed

lemma server_500_transient:
  "\<forall>k. \<exists>e. remote (always_raises server_500) k mdl prompt = Raises e \<and> is_retryable e
           \<and> get_status_code e \<noteq> Some 429"
  by (simp add: always_raises_def retryable_server_500 status_500)

text \<open>
  Claim C3. For every retry budget \<open>n\<close> and base delay \<open>d\<close>, a model that keeps failing
  with a transient error is to be invoked at most \<open>n + 1\<close> times before its last error is
  re-raised, the delay before the \<open>k\<close>-th retry being \<open>d * 2 ^ (k - 1)\<close>. With
  \<^verbatim>\<open>max_retries = 1025\<close> and \<^verbatim>\<open>retry_delay = 0.0\<close>, and every invocation failing with
  status 500, the loop makes 1025 invocations and sleeps 1024 times for 0 seconds; the
  delay of the next retry is \<^verbatim>\<open>0.0 * 2 ** 1024\<close>, which raises \<^verbatim>\<open>OverflowError\<close>. This
  error leaves \<^verbatim>\<open>_generate_with_retry\<close>, not the error of the service, and the last
  retry of the budget is never made.
\<close>

theorem retry_delay_overflow:
  "fst (generate_with_retry (always_raises server_500) patient_options ''model-a'' ''hi'' trace0)
     = Inl overflow_error
   \<and> calls (snd (generate_with_retry (always_raises server_500) patient_options ''model-a''
                   ''hi'' trace0)) = replicate 1025 ''model-a''
   \<and> sleeps (snd (generate_with_retry (always_raises server_500) patient_options ''model-a''
                   ''hi'' trace0)) = replicate 1024 0
   \<and> overflow_error \<noteq> server_500"
proof -
  have big: "1024 < max_retries patient_options" and d: "retry_delay patient_options = 0"
    by (simp_all add: patient_options_def single_options_def GemBackOptions_init_def)
  from retry_loop_overflow[OF server_500_transient big, where n = 1024 and r = 0 and w = trace0
      and mdl = "''model-a''" and prompt = "''hi''"]
  obtain w' where
    run: "retry_loop (always_raises server_500) patient_options ''model-a'' ''hi'' 0 trace0
            = (Inl overflow_error, w')"
    and cs: "calls w' = calls trace0 @ replicate (Suc 1024) ''model-a''"
    and sl: "sleeps w' = sleeps trace0
               @ map (\<lambda>k. retry_delay patient_options * 2 ^ (nat 0 + k)) [0..<1024]"
    by auto
  have z: "map (\<lambda>k. retry_delay patient_options * 2 ^ (nat 0 + k)) [0..<1024]
             = replicate 1024 (0::rat)"
    by (simp add: d map_replicate_const)
  have ne: "overflow_error \<noteq> server_500"
    by (simp add: overflow_error_def server_500_def)
  show ?thesis
    unfolding generate_with_retry_def run using cs sl z ne by (simp add: trace0_def)
qed

section \<open>The fallback loop\<close>

lemma quiet_refl: "quiet w w"
  by (simp add: quiet_def)

lemma quiet_trans: "quiet w w1 \<Longrightarrow> quiet w1 w2 \<Longrightarrow> quiet w w2"
  by (simp add: quiet_def)

lemma quiet_time: "time_time ev w = (t, w') \<Longrightarrow> quiet w w'"
  by (auto simp: time_time_def quiet_def)

lemma quiet_get_status: "get_status ev t m w = (st, t', w') \<Longrightarrow> quiet w w'"
  by (auto simp: get_status_def time_time_def quiet_def Let_def)

lemma quiet_would_exceed: "would_exceed_limit ev t m w = (b, t', w') \<Longrightarrow> quiet w w'"
  by (auto simp: would_exceed_limit_def split: prod.splits dest: quiet_get_status)

lemma quiet_wait_time: "get_recommended_wait_time ev t m w = (r, t', w') \<Longrightarrow> quiet w w'"
  unfolding get_recommended_wait_time_def
  by (auto simp: Let_def split: prod.splits if_splits list.splits
      dest!: quiet_would_exceed quiet_time intro: quiet_trans)

lemma wait_time_error: "get_recommended_wait_time ev t m w = (Inl err, t', w') \<Longrightarrow> err = IndexError"
  unfolding get_recommended_wait_time_def
  by (auto simp: Let_def split: prod.splits if_splits list.splits)

lemma prediction_pres:
  assumes "rate_limit_prediction ev c m w = (r, c', w')"
  shows "quiet w w' \<and> same_but_tracker c c' \<and> (r = None \<or> r = Some IndexError)"
proof (cases "rate_limit_tracker c")
  case None
  then show ?thesis using assms
    by (auto simp: rate_limit_prediction_def same_but_tracker_def quiet_refl)
next
  case (Some t)
  obtain b t1 w1 where we: "would_exceed_limit ev t m w = (b, t1, w1)"
    by (metis prod_cases3)
  have q1: "quiet w w1" using we by (rule quiet_would_exceed)
  show ?thesis
  proof (cases b)
    case False
    then show ?thesis using assms Some we q1
      by (auto simp: rate_limit_prediction_def same_but_tracker_def)
  next
    case True
    obtain x t2 w2 where wt: "get_recommended_wait_time ev t1 m w1 = (x, t2, w2)"
      by (metis prod_cases3)
    have q2: "quiet w w2" using q1 quiet_wait_time[OF wt] by (rule quiet_trans)
    show ?thesis using assms Some we True wt q2 wait_time_error[of ev t1 m w1 _ t2 w2]
      by (cases x) (auto simp: rate_limit_prediction_def same_but_tracker_def)
  qed
qed

lemma quiet_rate_record: "rate_record_request ev t m w = (t', w') \<Longrightarrow> quiet w w'"
  by (auto simp: rate_record_request_def time_time_def quiet_def Let_def)

lemma track_request_pres:
  assumes "track_request ev c m w = (c', w')"
  shows "quiet w w' \<and> same_but_tracker c c'"
  using assms unfolding track_request_def
  by (auto simp: Let_def same_but_tracker_def quiet_refl split: option.splits prod.splits
      dest!: quiet_rate_record)

lemma monitor_request_pres:
  "options (monitor_request c m d b) = options c \<and> rotator (monitor_request c m d b) = rotator c
   \<and> rate_limit_tracker (monitor_request c m d b) = rate_limit_tracker c"
  by (simp add: monitor_request_def split: option.splits)

lemma rotator_failure_rotator:
  "rotator (rotator_failure c ki) =
     (case ki of None \<Rightarrow> rotator c | Some i \<Rightarrow> map_option (\<lambda>r. record_failure r i) (rotator c))"
  by (simp add: rotator_failure_def split: option.splits)

lemma get_api_key_options: "get_api_key ev c w = (r, c0, w0) \<Longrightarrow> options c0 = options c
    \<and> health_monitor c0 = health_monitor c \<and> stream_calls w0 = stream_calls w"
  by (auto simp: get_api_key_def get_next_key_def time_time_def Let_def
      split: option.splits prod.splits if_splits sum.splits)

lemma generate_with_retry_quiet:
  assumes "quiet w w3"
  shows "generate_with_retry ev opts m p w3 =
     (fst (generate_with_retry ev opts m p w),
      (snd (generate_with_retry ev opts m p w))\<lparr>ticks := ticks w3\<rparr>)"
proof -
  obtain n cs sl sc where w: "w = \<lparr>ticks = n, calls = cs, sleeps = sl, stream_calls = sc\<rparr>"
    by (cases w) simp
  obtain n3 where w3: "w3 = \<lparr>ticks = n3, calls = cs, sleeps = sl, stream_calls = sc\<rparr>"
    using assms w by (cases w3) (simp add: quiet_def)
  show ?thesis
    unfolding generate_with_retry_def w w3
    using retry_loop_ticks[OF refl, where ev = ev and opts = opts and m = m and p = p and r = 0
        and n = n3 and n0 = n and cs = cs and sl = sl and sc = sc]
    by simp
qed

lemma generate_step_raised:
  assumes pre: "fst (rate_limit_prediction ev c m w) = None"
    and run: "fst (generate_with_retry ev (options c) m prompt w) = Inl e"
  shows "\<exists>c' w' ts. generate_step ev prompt ki m c w atts =
           (if get_status_code e = Some 401 \<or> get_status_code e = Some 403
            then (Some (Inl (GeminiBackError ''Authentication failed'' ''AUTH_ERROR''
                    (atts @ [\<lparr>ar_model = m, ar_error = exc_str e, timestamp = ts,
                              ar_status_code = get_status_code e\<rparr>])
                    (get_status_code e) (Some m))),
                  rotator_failure c' ki, w',
                  atts @ [\<lparr>ar_model = m, ar_error = exc_str e, timestamp = ts,
                              ar_status_code = get_status_code e\<rparr>])
            else (None, c', w',
                  atts @ [\<lparr>ar_model = m, ar_error = exc_str e, timestamp = ts,
                              ar_status_code = get_status_code e\<rparr>]))
         \<and> calls w' = calls (snd (generate_with_retry ev (options c) m prompt w))
         \<and> sleeps w' = sleeps (snd (generate_with_retry ev (options c) m prompt w))
         \<and> rotator c' = rotator c \<and> options c' = options c
         \<and> (\<exists>d. health_monitor c'
                  = map_option (\<lambda>h. health_record_request h m d False) (health_monitor c))"
proof -
  obtain c1 w1 where p: "rate_limit_prediction ev c m w = (None, c1, w1)"
    using pre by (metis fst_conv prod_cases3)
  obtain start w2 where t1: "time_time ev w1 = (start, w2)" by (metis surj_pair)
  obtain c2 w3 where tr: "track_request ev c1 m w2 = (c2, w3)" by (metis surj_pair)
  have q: "quiet w w3"
    using prediction_pres[OF p] quiet_time[OF t1] track_request_pres[OF tr]
    by (blast intro: quiet_trans)
  have sc: "same_but_tracker c c2"
    using prediction_pres[OF p] track_request_pres[OF tr] by (simp add: same_but_tracker_def)
  let ?r = "generate_with_retry ev (options c) m prompt w"
  let ?w4 = "(snd ?r)\<lparr>ticks := ticks w3\<rparr>"
  have run3: "generate_with_retry ev (options c2) m prompt w3 = (Inl e, ?w4)"
    using generate_with_retry_quiet[OF q, of ev "options c" m prompt] run sc
    by (simp add: same_but_tracker_def)
  obtain t_end w5 where t2: "time_time ev ?w4 = (t_end, w5)" by (metis surj_pair)
  obtain ts w6 where t3: "time_time ev w5 = (ts, w6)" by (metis surj_pair)
  let ?c3 = "monitor_request c2 m ((t_end - start) * 1000) False"
  have q6: "calls w6 = calls (snd ?r) \<and> sleeps w6 = sleeps (snd ?r)"
    using quiet_time[OF t2] quiet_time[OF t3] by (simp add: quiet_def)
  have c3: "rotator ?c3 = rotator c \<and> options ?c3 = options c"
    using sc by (simp add: monitor_request_pres same_but_tracker_def)
  have hm: "\<exists>d. health_monitor ?c3
                  = map_option (\<lambda>h. health_record_request h m d False) (health_monitor c)"
    using sc by (intro exI[of _ "(t_end - start) * 1000"])
      (simp add: monitor_request_def same_but_tracker_def split: option.splits)
  have "generate_step ev prompt ki m c w atts =
           (if get_status_code e = Some 401 \<or> get_status_code e = Some 403
            then (Some (Inl (GeminiBackError ''Authentication failed'' ''AUTH_ERROR''
                    (atts @ [\<lparr>ar_model = m, ar_error = exc_str e, timestamp = ts,
                              ar_status_code = get_status_code e\<rparr>])
                    (get_status_code e) (Some m))),
                  rotator_failure ?c3 ki, w6,
                  atts @ [\<lparr>ar_model = m, ar_error = exc_str e, timestamp = ts,
                              ar_status_code = get_status_code e\<rparr>])
            else (None, ?c3, w6,
                  atts @ [\<lparr>ar_model = m, ar_error = exc_str e, timestamp = ts,
                              ar_status_code = get_status_code e\<rparr>]))"
    unfolding generate_step_def by (simp add: p t1 tr run3 t2 t3 Let_def)
  then show ?thesis using q6 c3 hm by blast
qed



lemma generate_step_all_fail:
  assumes all: "\<forall>k m. \<exists>e. remote ev k m prompt = Raises e
                  \<and> get_status_code e \<noteq> Some 401 \<and> get_status_code e \<noteq> Some 403"
    and st: "generate_step ev prompt ki m c w atts = (r, c', w', atts')"
  shows "r = Some (Inl IndexError)
         \<or> (r = None \<and> (\<exists>a. atts' = atts @ [a] \<and> ar_model a = m)
             \<and> rotator c' = rotator c \<and> options c' = options c)"
proof -
  obtain p c1 w1 where p: "rate_limit_prediction ev c m w = (p, c1, w1)" by (metis prod_cases3)
  show ?thesis
  proof (cases p)
    case (Some err)
    then have "err = IndexError" using prediction_pres[OF p] by simp
    then show ?thesis using st p Some by (simp add: generate_step_def)
  next
    case None
    obtain start w2 where t1: "time_time ev w1 = (start, w2)" by (metis surj_pair)
    obtain c2 w3 where tr: "track_request ev c1 m w2 = (c2, w3)" by (metis surj_pair)
    have sc: "same_but_tracker c c2"
      using prediction_pres[OF p] track_request_pres[OF tr] by (simp add: same_but_tracker_def)
    from all have all': "\<forall>k. \<exists>e. remote ev k m prompt = Raises e
                  \<and> (get_status_code e \<noteq> Some 401 \<and> get_status_code e \<noteq> Some 403)" by blast
    have ov: "get_status_code overflow_error \<noteq> Some 401
                \<and> get_status_code overflow_error \<noteq> Some 403"
      by (simp add: overflow_error_def get_status_code_def py_or_def)
    from retry_loop_fails[OF all' ov refl, where opts = "options c2" and r = 0 and w = w3]
    obtain e w4 where run: "generate_with_retry ev (options c2) m prompt w3 = (Inl e, w4)"
      and na: "get_status_code e \<noteq> Some 401" "get_status_code e \<noteq> Some 403"
      unfolding generate_with_retry_def by blast
    obtain t_end w5 where t2: "time_time ev w4 = (t_end, w5)" by (metis surj_pair)
    obtain ts w6 where t3: "time_time ev w5 = (ts, w6)" by (metis surj_pair)
    have "generate_step ev prompt ki m c w atts =
            (None, monitor_request c2 m ((t_end - start) * 1000) False, w6,
             atts @ [\<lparr>ar_model = m, ar_error = exc_str e, timestamp = ts,
                              ar_status_code = get_status_code e\<rparr>])"
      unfolding generate_step_def using None by (simp add: p t1 tr run t2 t3 na Let_def)
    then show ?thesis using st sc by (auto simp: monitor_request_pres same_but_tracker_def)
  qed
qed

lemma generate_loop_all_fail:
  assumes all: "\<forall>k m. \<exists>e. remote ev k m prompt = Raises e
                  \<and> get_status_code e \<noteq> Some 401 \<and> get_status_code e \<noteq> Some 403"
  shows "generate_loop ev prompt ki models c w atts = (res, c', w') \<Longrightarrow> res \<noteq> Inl IndexError \<Longrightarrow>
     \<exists>new. res = Inl (GeminiBackError ''All models failed'' ''ALL_MODELS_FAILED'' (atts @ new) None None)
       \<and> map ar_model new = models
       \<and> rotator c' = rotator (rotator_failure c ki)"
proof (induction models arbitrary: c w atts)
  case Nil
  then show ?case by auto
next
  case (Cons m rest)
  obtain r c1 w1 atts1 where st: "generate_step ev prompt ki m c w atts = (r, c1, w1, atts1)"
    by (metis prod_cases4)
  from generate_step_all_fail[OF all st] Cons.prems st
  have r: "r = None" and a: "\<exists>a. atts1 = atts @ [a] \<and> ar_model a = m"
    and rc: "rotator c1 = rotator c" by auto
  from a obtain a where a1: "atts1 = atts @ [a]" "ar_model a = m" by blast
  have "generate_loop ev prompt ki rest c1 w1 atts1 = (res, c', w')"
    using Cons.prems(1) st r by simp
  from Cons.IH[OF this Cons.prems(2)] obtain new where
    n: "res = Inl (GeminiBackError ''All models failed'' ''ALL_MODELS_FAILED'' (atts1 @ new) None None)"
       "map ar_model new = rest" "rotator c' = rotator (rotator_failure c1 ki)" by blast
  have "rotator (rotator_failure c1 ki) = rotator (rotator_failure c ki)"
    using rc by (simp add: rotator_failure_rotator split: option.splits)
  then show ?case using n a1 by (intro exI[of _ "a # new"]) simp
qed

lemma single_client_init: "GemBack_init single_options = Inr single_client"
  by (simp add: GemBack_init_def configure_logger_def single_options_def single_client_def
      GemBackOptions_init_def truthy_def resolved_api_keys_def)

lemma multi_client_init: "GemBack_init multi_options = Inr multi_client"
  by (simp add: GemBack_init_def configure_logger_def multi_options_def multi_client_def
      GemBackOptions_init_def truthy_def resolved_api_keys_def Let_def)

lemma monitored_client_init:
  "GemBack_init (single_options\<lparr>enable_monitoring := True\<rparr>) = Inr monitored_client"
  by (simp add: GemBack_init_def configure_logger_def single_options_def monitored_client_def
      GemBackOptions_init_def truthy_def resolved_api_keys_def Let_def)

lemma single_client_fields:
  "options single_client = single_options" "rotator single_client = None"
  "rate_limit_tracker single_client = None" "health_monitor single_client = None"
  "fallback_order single_options = [''gemini-2.5-flash'', ''gemini-2.5-flash-lite'']"
  by (simp_all add: single_client_def single_options_def GemBackOptions_init_def)

lemma multi_client_fields:
  "options multi_client = multi_options"
  "rotator multi_client = Some (ApiKeyRotator_init [''key-a'', ''key-b''] ''round-robin'')"
  "rate_limit_tracker multi_client = None" "health_monitor multi_client = None"
  "fallback_order multi_options = [''gemini-2.5-flash'', ''gemini-2.5-flash-lite'']"
  "max_retries multi_options = 2"
  by (simp_all add: multi_client_def multi_options_def GemBackOptions_init_def)

lemma multi_select:
  "get_api_key (always_raises e) multi_client trace0 =
     (Inr \<lparr>key = Some ''key-a'', index = Some 0\<rparr>, multi_selected, trace0\<lparr>ticks := 1\<rparr>)"
proof -
  have two: "[0..<length [''key-a'', ''key-b'']] = [0, 1]" by (simp add: upt_rec)
  show ?thesis
    by (simp add: get_api_key_def multi_client_def multi_selected_def get_next_key_def
        choose_index_def ApiKeyRotator_init_def two time_time_def trace0_def always_raises_def
        py_index_def KeyStats_init_def)
qed

lemma quota_retry:
  "retry_loop (always_raises quota_429) opts m p r w = (Inl quota_429, w\<lparr>calls := calls w @ [m]\<rparr>)"
  by (rule retry_loop_429) (simp add: always_raises_def, rule status_429)

lemma quota_step_env:
  assumes "rate_limit_tracker c = None" and "health_monitor c = None"
    and "clock ev = rat_of_nat" and "remote ev (length cs) m p = Raises quota_429"
  shows "generate_step ev p ki m c
           \<lparr>ticks = n, calls = cs, sleeps = sl, stream_calls = sc\<rparr> atts =
         (None, c, \<lparr>ticks = n + 3, calls = cs @ [m], sleeps = sl, stream_calls = sc\<rparr>,
          atts @ [\<lparr>ar_model = m, ar_error = ''Rate limit'', timestamp = rat_of_nat (n + 2),
                    ar_status_code = Some 429\<rparr>])"
proof -
  have run: "retry_loop ev opts m p r \<lparr>ticks = k, calls = cs, sleeps = sl, stream_calls = sc\<rparr>
       = (Inl quota_429, \<lparr>ticks = k, calls = cs @ [m], sleeps = sl, stream_calls = sc\<rparr>)"
    for opts r k
    using retry_loop_429[where w = "\<lparr>ticks = k, calls = cs, sleeps = sl, stream_calls = sc\<rparr>"
        and ev = ev and mdl = m and prompt = p and e = quota_429 and opts = opts
        and retries = r]
      assms(4) status_429 by simp
  show ?thesis
    unfolding generate_step_def
    by (simp add: rate_limit_prediction_def track_request_def assms(1-3) time_time_def
        generate_with_retry_def run monitor_request_def status_429 Let_def)
       (simp add: quota_429_def)
qed

lemma quota_step:
  assumes "rate_limit_tracker c = None" and "health_monitor c = None"
  shows "generate_step (always_raises quota_429) p ki m c
           \<lparr>ticks = n, calls = cs, sleeps = sl, stream_calls = sc\<rparr> atts =
         (None, c, \<lparr>ticks = n + 3, calls = cs @ [m], sleeps = sl, stream_calls = sc\<rparr>,
          atts @ [\<lparr>ar_model = m, ar_error = ''Rate limit'', timestamp = rat_of_nat (n + 2),
                    ar_status_code = Some 429\<rparr>])"
  by (rule quota_step_env[OF assms]) (simp_all add: always_raises_def)

lemma auth_retry:
  "generate_with_retry auth_env single_options m p \<lparr>ticks = n, calls = [], sleeps = [], stream_calls = []\<rparr> =
     (Inl plain_401, \<lparr>ticks = n, calls = [m, m], sleeps = [1], stream_calls = []\<rparr>)"
proof -
  let ?w = "\<lparr>ticks = n, calls = [], sleeps = [], stream_calls = []\<rparr>"
  have r0: "remote auth_env (length (calls ?w)) m p = Raises connection_401"
    by (simp add: auth_env_def)
  have mr: "0 < max_retries single_options" "retry_delay single_options = 1"
    by (simp_all add: single_options_def GemBackOptions_init_def)
  have s1: "retry_loop auth_env single_options m p 0 ?w =
          retry_loop auth_env single_options m p 1 \<lparr>ticks = n, calls = [m], sleeps = [1], stream_calls = []\<rparr>"
    using retry_step[OF r0 _ retryable_connection_401 mr(1)]
    by (simp add: status_401 asyncio_sleep_def mr)
  let ?w1 = "\<lparr>ticks = n, calls = [m], sleeps = [1], stream_calls = []\<rparr>"
  have r1: "remote auth_env (length (calls ?w1)) m p = Raises plain_401"
    by (simp add: auth_env_def)
  have s2: "retry_loop auth_env single_options m p 1 ?w1 = (Inl plain_401, ?w1\<lparr>calls := calls ?w1 @ [m]\<rparr>)"
    by (rule retry_loop_no_retry[OF r1]) (simp add: not_retryable_plain_401)
  show ?thesis unfolding generate_with_retry_def s1 s2 by simp
qed

lemma auth_step:
  "generate_step auth_env ''hi'' None ''gemini-2.5-flash'' single_client trace0 [] =
     (Some (Inl (GeminiBackError ''Authentication failed'' ''AUTH_ERROR''
            [\<lparr>ar_model = ''gemini-2.5-flash'', ar_error = ''Unauthorized'', timestamp = 2,
              ar_status_code = Some 401\<rparr>] (Some 401) (Some ''gemini-2.5-flash''))),
      single_client,
      \<lparr>ticks = 3, calls = [''gemini-2.5-flash'', ''gemini-2.5-flash''], sleeps = [1],
        stream_calls = []\<rparr>,
      [\<lparr>ar_model = ''gemini-2.5-flash'', ar_error = ''Unauthorized'', timestamp = 2,
              ar_status_code = Some 401\<rparr>])"
proof -
  have clk: "clock auth_env = rat_of_nat" by (simp add: auth_env_def)
  show ?thesis
    unfolding generate_step_def
    by (simp add: rate_limit_prediction_def track_request_def single_client_fields time_time_def
        trace0_def auth_retry monitor_request_def rotator_failure_def status_401 clk Let_def)
       (simp add: plain_401_def)
qed



text \<open>
  Claim C1, as amended. When the retry loop of a model ends by raising an error whose
  status code is 401 or 403, \<^verbatim>\<open>generate\<close> aborts with \<^verbatim>\<open>GeminiBackError\<close> of code
  \<^verbatim>\<open>AUTH_ERROR\<close>, carrying the attempts so far and the record of this one; no model is
  invoked after the retry loop; and a failure is recorded to the rotator when the client
  has one and the selection gave an index, while a client with a single key has no
  rotator and records nothing. An invocation that fails with such an error is not
  retried when its message holds neither \<^verbatim>\<open>timeout\<close> nor \<^verbatim>\<open>connection\<close>, or when no
  retry is left: the retry loop re-raises it at once.
\<close>

theorem auth_error_aborts:
  assumes pre: "fst (rate_limit_prediction ev c m w) = None"
    and run: "fst (generate_with_retry ev (options c) m prompt w) = Inl e"
    and auth: "get_status_code e = Some 401 \<or> get_status_code e = Some 403"
  shows "(\<exists>c' w' ts.
           generate_loop ev prompt ki (m # rest) c w atts =
             (Inl (GeminiBackError ''Authentication failed'' ''AUTH_ERROR''
                    (atts @ [\<lparr>ar_model = m, ar_error = exc_str e, timestamp = ts,
                              ar_status_code = get_status_code e\<rparr>])
                    (get_status_code e) (Some m)), c', w')
           \<and> calls w' = calls (snd (generate_with_retry ev (options c) m prompt w))
           \<and> sleeps w' = sleeps (snd (generate_with_retry ev (options c) m prompt w))
           \<and> rotator c' = (case ki of None \<Rightarrow> rotator c
                           | Some i \<Rightarrow> map_option (\<lambda>r. record_failure r i) (rotator c)))
     \<and> (\<forall>(w0::trace) r. remote ev (length (calls w0)) m prompt = Raises e
               \<and> \<not> (is_retryable e \<and> r < max_retries (options c))
            \<longrightarrow> retry_loop ev (options c) m prompt r w0 = (Inl e, w0\<lparr>calls := calls w0 @ [m]\<rparr>))"
proof (intro conjI allI impI)
  from generate_step_raised[OF pre run, of ki atts] obtain c' w' ts where
    st: "generate_step ev prompt ki m c w atts =
           (Some (Inl (GeminiBackError ''Authentication failed'' ''AUTH_ERROR''
                    (atts @ [\<lparr>ar_model = m, ar_error = exc_str e, timestamp = ts,
                              ar_status_code = get_status_code e\<rparr>])
                    (get_status_code e) (Some m))),
            rotator_failure c' ki, w',
            atts @ [\<lparr>ar_model = m, ar_error = exc_str e, timestamp = ts,
                              ar_status_code = get_status_code e\<rparr>])"
    and rest: "calls w' = calls (snd (generate_with_retry ev (options c) m prompt w))"
      "sleeps w' = sleeps (snd (generate_with_retry ev (options c) m prompt w))"
      "rotator c' = rotator c"
    using auth by auto
  have rot: "rotator (rotator_failure c' ki) =
      (case ki of None \<Rightarrow> rotator c | Some i \<Rightarrow> map_option (\<lambda>r. record_failure r i) (rotator c))"
    using rest(3) by (simp add: rotator_failure_rotator split: option.splits)
  show "\<exists>c' w' ts.
           generate_loop ev prompt ki (m # rest) c w atts =
             (Inl (GeminiBackError ''Authentication failed'' ''AUTH_ERROR''
                    (atts @ [\<lparr>ar_model = m, ar_error = exc_str e, timestamp = ts,
                              ar_status_code = get_status_code e\<rparr>])
                    (get_status_code e) (Some m)), c', w')
           \<and> calls w' = calls (snd (generate_with_retry ev (options c) m prompt w))
           \<and> sleeps w' = sleeps (snd (generate_with_retry ev (options c) m prompt w))
           \<and> rotator c' = (case ki of None \<Rightarrow> rotator c
                           | Some i \<Rightarrow> map_option (\<lambda>r. record_failure r i) (rotator c))"
    using st rest(1,2) rot
    by (intro exI[of _ "rotator_failure c' ki"] exI[of _ w'] exI[of _ ts]) simp
next
  fix w0 :: trace and r
  assume "remote ev (length (calls w0)) m prompt = Raises e
               \<and> \<not> (is_retryable e \<and> r < max_retries (options c))"
  then show "retry_loop ev (options c) m prompt r w0 = (Inl e, w0\<lparr>calls := calls w0 @ [m]\<rparr>)"
    using retry_loop_no_retry by blast
qed

theorem auth_error_aborts_witness:
  "(\<exists>c' w' ts.
      generate_loop (always_raises plain_401) ''hi'' (Some 0) [''model-a'', ''model-b'']
        multi_client trace0 [] =
        (Inl (GeminiBackError ''Authentication failed'' ''AUTH_ERROR''
               [\<lparr>ar_model = ''model-a'', ar_error = ''Unauthorized'', timestamp = ts,
                 ar_status_code = Some 401\<rparr>] (Some 401) (Some ''model-a'')), c', w')
      \<and> calls w' = [''model-a''] \<and> sleeps w' = []
      \<and> rotator c' =
          Some (record_failure (ApiKeyRotator_init [''key-a'', ''key-b''] ''round-robin'') 0))
   \<and> retry_loop (always_raises plain_401) multi_options ''model-a'' ''hi'' 0 trace0
       = (Inl plain_401, trace0\<lparr>calls := [''model-a'']\<rparr>)"
proof -
  have rem: "remote (always_raises plain_401) (length (calls trace0)) ''model-a'' ''hi''
               = Raises plain_401"
    by (simp add: always_raises_def)
  have nr: "\<not> (is_retryable plain_401 \<and> 0 < max_retries multi_options)"
    by (simp add: not_retryable_plain_401)
  have one: "retry_loop (always_raises plain_401) multi_options ''model-a'' ''hi'' 0 trace0
       = (Inl plain_401, trace0\<lparr>calls := calls trace0 @ [''model-a'']\<rparr>)"
    using rem nr by (rule retry_loop_no_retry)
  have pre: "fst (rate_limit_prediction (always_raises plain_401) multi_client ''model-a'' trace0)
               = None"
    by (simp add: rate_limit_prediction_def multi_client_fields)
  have run: "fst (generate_with_retry (always_raises plain_401) (options multi_client)
               ''model-a'' ''hi'' trace0) = Inl plain_401"
    by (simp add: generate_with_retry_def multi_client_fields one)
  have auth: "get_status_code plain_401 = Some 401 \<or> get_status_code plain_401 = Some 403"
    by (simp add: status_401)
  note inst = auth_error_aborts[OF pre run auth, where ki = "Some 0" and rest = "[''model-b'']"
      and atts = "[]"]
  from inst have part2: "retry_loop (always_raises plain_401) (options multi_client) ''model-a''
       ''hi'' 0 trace0 = (Inl plain_401, trace0\<lparr>calls := calls trace0 @ [''model-a'']\<rparr>)"
    using rem nr by (simp add: multi_client_fields)
  from inst show ?thesis using part2
    by (simp add: generate_with_retry_def multi_client_fields one status_401 trace0_def
        plain_401_def get_status_code_def py_or_def)
qed

text \<open>The claim as stated fails on a client with one key and the default two retries:
  the first invocation fails with status 401 and the message \<^verbatim>\<open>Connection reset\<close>, is
  retried after a sleep of 1, and the second fails with status 401. The call raises
  \<^verbatim>\<open>AUTH_ERROR\<close> after two invocations of the model, and the client, which has no
  rotator, is as it was: no failure has been recorded.\<close>

theorem auth_counterexample:
  "generate auth_env single_client ''hi'' None trace0 =
     (Inl (GeminiBackError ''Authentication failed'' ''AUTH_ERROR''
            [\<lparr>ar_model = ''gemini-2.5-flash'', ar_error = ''Unauthorized'', timestamp = 2,
              ar_status_code = Some 401\<rparr>] (Some 401) (Some ''gemini-2.5-flash'')),
      single_client,
      \<lparr>ticks = 3, calls = [''gemini-2.5-flash'', ''gemini-2.5-flash''], sleeps = [1],
        stream_calls = []\<rparr>)
   \<and> rotator single_client = None"
  by (simp add: generate_def get_api_key_def single_client_fields models_to_try_def truthy_def
      auth_step)

text \<open>
  Claim C4, as amended. When every invocation fails with an error whose status is neither
  401 nor 403, the credential selection returned, and the call does not end in the
  IndexError of the rate limit prediction, \<^verbatim>\<open>generate\<close> raises \<^verbatim>\<open>GeminiBackError\<close> of
  code \<^verbatim>\<open>ALL_MODELS_FAILED\<close> whose attempts are one record per model of the resolved list,
  in the order of that list; and a failure is recorded once to the rotator when the client
  has one and the selection gave an index, while a client with a single key has no
  rotator and records nothing.
\<close>

theorem all_models_failed:
  assumes all: "\<forall>k m. \<exists>e. remote ev k m prompt = Raises e
                  \<and> get_status_code e \<noteq> Some 401 \<and> get_status_code e \<noteq> Some 403"
    and sel: "get_api_key ev c w = (Inr ki, c0, w0)"
    and res: "fst (generate ev c prompt mdl w) \<noteq> Inl IndexError"
  shows "\<exists>atts c' w'.
      generate ev c prompt mdl w =
        (Inl (GeminiBackError ''All models failed'' ''ALL_MODELS_FAILED'' atts None None), c', w')
      \<and> map ar_model atts = models_to_try (options c) mdl
      \<and> rotator c' = (case index ki of None \<Rightarrow> rotator c0
                      | Some i \<Rightarrow> map_option (\<lambda>r. record_failure r i) (rotator c0))"
proof -
  let ?ms = "models_to_try (options c) mdl"
  have g: "generate ev c prompt mdl w = generate_loop ev prompt (index ki) ?ms c0 w0 []"
    by (simp add: generate_def sel)
  obtain r c' w' where l: "generate_loop ev prompt (index ki) ?ms c0 w0 [] = (r, c', w')"
    by (metis prod_cases3)
  have "r \<noteq> Inl IndexError" using res g l by simp
  from generate_loop_all_fail[OF all l this] obtain new where
    n: "r = Inl (GeminiBackError ''All models failed'' ''ALL_MODELS_FAILED'' ([] @ new) None None)"
       "map ar_model new = ?ms" "rotator c' = rotator (rotator_failure c0 (index ki))" by blast
  show ?thesis using g l n
    by (intro exI[of _ new] exI[of _ c'] exI[of _ w']) (simp add: rotator_failure_rotator)
qed

theorem all_models_failed_witness:
  "\<exists>atts c' w'.
      generate (always_raises quota_429) multi_client ''hi'' None trace0 =
        (Inl (GeminiBackError ''All models failed'' ''ALL_MODELS_FAILED'' atts None None), c', w')
      \<and> map ar_model atts = [''gemini-2.5-flash'', ''gemini-2.5-flash-lite'']
      \<and> rotator c' = map_option (\<lambda>r. record_failure r 0) (rotator multi_selected)"
proof -
  have all: "\<forall>k m. \<exists>e. remote (always_raises quota_429) k m ''hi'' = Raises e
                  \<and> get_status_code e \<noteq> Some 401 \<and> get_status_code e \<noteq> Some 403"
    by (simp add: always_raises_def status_429)
  have f: "rate_limit_tracker multi_selected = None" "health_monitor multi_selected = None"
    by (simp_all add: multi_selected_def multi_client_fields)
  have res: "fst (generate (always_raises quota_429) multi_client ''hi'' None trace0)
               \<noteq> Inl IndexError"
    unfolding generate_def multi_select
    by (simp add: multi_client_fields models_to_try_def truthy_def trace0_def quota_step[OF f])
  show ?thesis
    using all_models_failed[OF all multi_select res]
    by (simp add: multi_client_fields models_to_try_def truthy_def)
qed

text \<open>The claim as stated fails on a client with one key: both models of the default
  fallback order fail with status 429, the call raises \<^verbatim>\<open>ALL_MODELS_FAILED\<close> with the two
  attempts, and the client, which has no rotator, is as it was: no failure has been
  recorded.\<close>

theorem all_models_failed_counterexample:
  "generate (always_raises quota_429) single_client ''hi'' None trace0 =
     (Inl (GeminiBackError ''All models failed'' ''ALL_MODELS_FAILED''
            [\<lparr>ar_model = ''gemini-2.5-flash'', ar_error = ''Rate limit'', timestamp = 2,
              ar_status_code = Some 429\<rparr>,
             \<lparr>ar_model = ''gemini-2.5-flash-lite'', ar_error = ''Rate limit'', timestamp = 5,
              ar_status_code = Some 429\<rparr>] None None),
      single_client,
      \<lparr>ticks = 6, calls = [''gemini-2.5-flash'', ''gemini-2.5-flash-lite''], sleeps = [],
        stream_calls = []\<rparr>)
   \<and> rotator single_client = None"
  by (simp add: generate_def get_api_key_def single_client_fields models_to_try_def truthy_def
      trace0_def quota_step rotator_failure_def)

section \<open>Streaming\<close>

lemma stream_step_empty:
  assumes "remote_stream ev (length (stream_calls w)) m prompt
             = \<lparr>chunks = [], stream_raises = None\<rparr>"
  shows "\<exists>c1 w1. stream_step ev prompt m c w atts ys = (False, c1, w1, atts, ys)
           \<and> health_monitor c1 = health_monitor c \<and> stream_calls w1 = stream_calls w @ [m]"
proof -
  obtain c1 w1 where tr: "track_request ev c m w = (c1, w1)" by (metis surj_pair)
  obtain start w2 where t1: "time_time ev w1 = (start, w2)" by (metis surj_pair)
  have q: "quiet w w2" using track_request_pres[OF tr] quiet_time[OF t1]
    by (blast intro: quiet_trans)
  have h: "health_monitor c1 = health_monitor c"
    using track_request_pres[OF tr] by (simp add: same_but_tracker_def)
  have rs: "remote_stream ev (length (stream_calls w2)) m prompt
             = \<lparr>chunks = [], stream_raises = None\<rparr>"
    using assms q by (simp add: quiet_def)
  have "stream_step ev prompt m c w atts ys
          = (False, c1, w2\<lparr>stream_calls := stream_calls w2 @ [m]\<rparr>, atts, ys)"
    unfolding stream_step_def by (simp add: tr t1 generate_content_stream_def rs)
  then show ?thesis using h q by (simp add: quiet_def)
qed

lemma stream_loop_empty:
  assumes all: "\<forall>k m. remote_stream ev k m prompt = \<lparr>chunks = [], stream_raises = None\<rparr>"
  shows "\<exists>c' w'. stream_loop ev prompt ms c w atts ys =
           (ys, Some (GeminiBackError ''All models failed for stream'' ''ALL_MODELS_FAILED'' atts
                        None None), c', w')
         \<and> health_monitor c' = health_monitor c \<and> stream_calls w' = stream_calls w @ ms"
proof (induction ms arbitrary: c w)
  case Nil
  show ?case by simp
next
  case (Cons m ms)
  from all have "remote_stream ev (length (stream_calls w)) m prompt
             = \<lparr>chunks = [], stream_raises = None\<rparr>" by simp
  from stream_step_empty[OF this, of c atts ys] obtain c1 w1 where
    st: "stream_step ev prompt m c w atts ys = (False, c1, w1, atts, ys)"
    and h: "health_monitor c1 = health_monitor c" "stream_calls w1 = stream_calls w @ [m]"
    by blast
  from Cons.IH[of c1 w1] obtain c' w' where
    "stream_loop ev prompt ms c1 w1 atts ys =
           (ys, Some (GeminiBackError ''All models failed for stream'' ''ALL_MODELS_FAILED'' atts
                        None None), c', w')"
    "health_monitor c' = health_monitor c1" "stream_calls w' = stream_calls w1 @ ms"
    by blast
  then show ?case using st h by simp
qed

text \<open>
  Claim C10. In \<^verbatim>\<open>generate_stream\<close>, when the streams end normally without a fragment,
  a pass of the loop goes on to the next model with the attempts as they were and the
  health monitor as it was. When every model fails this way the generator yields nothing
  and raises \<^verbatim>\<open>GeminiBackError\<close> of code \<^verbatim>\<open>ALL_MODELS_FAILED\<close> with an empty list of
  attempts, although every model of the resolved list was tried, in order: fewer attempt
  records than models tried, as soon as there is a model.
\<close>

theorem stream_soft_failure:
  assumes all: "\<forall>k m. remote_stream ev k m prompt = \<lparr>chunks = [], stream_raises = None\<rparr>"
    and sel: "get_api_key ev c w = (Inr ki, c0, w0)"
  shows "(\<forall>m rest c1 (w1::trace) atts ys.
            \<exists>c2 w2. stream_loop ev prompt (m # rest) c1 w1 atts ys
                      = stream_loop ev prompt rest c2 w2 atts ys
                    \<and> health_monitor c2 = health_monitor c1
                    \<and> stream_calls w2 = stream_calls w1 @ [m])
     \<and> (\<exists>c' w'. generate_stream ev c prompt mdl w =
           ([], Some (GeminiBackError ''All models failed for stream'' ''ALL_MODELS_FAILED'' []
                        None None), c', w')
         \<and> health_monitor c' = health_monitor c
         \<and> stream_calls w' = stream_calls w @ models_to_try (options c) mdl)"
proof (intro conjI allI)
  fix m rest c1 and w1 :: trace and atts ys
  from all have "remote_stream ev (length (stream_calls w1)) m prompt
             = \<lparr>chunks = [], stream_raises = None\<rparr>" by simp
  from stream_step_empty[OF this, of c1 atts ys] obtain c2 w2 where
    "stream_step ev prompt m c1 w1 atts ys = (False, c2, w2, atts, ys)"
    "health_monitor c2 = health_monitor c1" "stream_calls w2 = stream_calls w1 @ [m]"
    by blast
  then show "\<exists>c2 w2. stream_loop ev prompt (m # rest) c1 w1 atts ys
                      = stream_loop ev prompt rest c2 w2 atts ys
                    \<and> health_monitor c2 = health_monitor c1
                    \<and> stream_calls w2 = stream_calls w1 @ [m]"
    by (intro exI[of _ c2] exI[of _ w2]) simp
next
  from stream_loop_empty[OF all, of "models_to_try (options c) mdl" c0 w0 "[]" "[]"]
  obtain c' w' where
    l: "stream_loop ev prompt (models_to_try (options c) mdl) c0 w0 [] [] =
           ([], Some (GeminiBackError ''All models failed for stream'' ''ALL_MODELS_FAILED'' []
                        None None), c', w')"
       "health_monitor c' = health_monitor c0"
       "stream_calls w' = stream_calls w0 @ models_to_try (options c) mdl"
    by blast
  show "\<exists>c' w'. generate_stream ev c prompt mdl w =
           ([], Some (GeminiBackError ''All models failed for stream'' ''ALL_MODELS_FAILED'' []
                        None None), c', w')
         \<and> health_monitor c' = health_monitor c
         \<and> stream_calls w' = stream_calls w @ models_to_try (options c) mdl"
    using l get_api_key_options[OF sel]
    by (intro exI[of _ c'] exI[of _ w']) (simp add: generate_stream_def sel)
qed

theorem stream_soft_failure_witness:
  "(\<exists>c2 w2. stream_loop (always_raises quota_429) ''hi'' [''model-a'', ''model-b'']
               monitored_client trace0 [] []
             = stream_loop (always_raises quota_429) ''hi'' [''model-b''] c2 w2 [] []
           \<and> health_monitor c2 = Some HealthMonitor_init
           \<and> stream_calls w2 = [''model-a''])
   \<and> (\<exists>c' w'. generate_stream (always_raises quota_429) monitored_client ''hi'' None trace0 =
           ([], Some (GeminiBackError ''All models failed for stream'' ''ALL_MODELS_FAILED'' []
                        None None), c', w')
         \<and> health_monitor c' = Some HealthMonitor_init
         \<and> stream_calls w' = [''gemini-2.5-flash'', ''gemini-2.5-flash-lite''])"
proof -
  have all: "\<forall>k m. remote_stream (always_raises quota_429) k m ''hi''
               = \<lparr>chunks = [], stream_raises = None\<rparr>"
    by (simp add: always_raises_def)
  have sel: "get_api_key (always_raises quota_429) monitored_client trace0
               = (Inr \<lparr>key = Some ''key-a'', index = None\<rparr>, monitored_client, trace0)"
    by (simp add: get_api_key_def monitored_client_def)
  have f: "health_monitor monitored_client = Some HealthMonitor_init"
    "fallback_order (options monitored_client) = [''gemini-2.5-flash'', ''gemini-2.5-flash-lite'']"
    "stream_calls trace0 = []"
    by (simp_all add: monitored_client_def single_options_def GemBackOptions_init_def trace0_def)
  note inst = stream_soft_failure[OF all sel, where mdl = None]
  from inst have p1: "\<exists>c2 w2. stream_loop (always_raises quota_429) ''hi'' (''model-a'' # [''model-b''])
               monitored_client trace0 [] []
             = stream_loop (always_raises quota_429) ''hi'' [''model-b''] c2 w2 [] []
           \<and> health_monitor c2 = health_monitor monitored_client
           \<and> stream_calls w2 = stream_calls trace0 @ [''model-a'']"
    by blast
  from inst have p2: "\<exists>c' w'. generate_stream (always_raises quota_429) monitored_client ''hi'' None trace0 =
           ([], Some (GeminiBackError ''All models failed for stream'' ''ALL_MODELS_FAILED'' []
                        None None), c', w')
         \<and> health_monitor c' = health_monitor monitored_client
         \<and> stream_calls w' = stream_calls trace0 @ models_to_try (options monitored_client) None"
    by blast
  show ?thesis using p1 p2 by (simp add: f models_to_try_def truthy_def)
qed


end
